theory Spec2Isabelle
  imports Main "HOL-Library.Signed_Division"
begin

section \<open>Time values\<close>

text \<open>
  \<open>nsecs_t\<close> is a signed 64-bit count of nanoseconds. It is modelled as an \<open>int\<close>
  together with the range check: an arithmetic result outside the range is a signed
  overflow, which C++ leaves undefined, and is the value \<open>None\<close>. The remainder
  operator \<open>%\<close> of C++ truncates towards zero (\<open>smod\<close>), and is undefined for a zero
  divisor and for \<open>INT64_MIN % -1\<close>.
\<close>

type_synonym nsecs_t = int

definition INT64_MIN :: int where
  "INT64_MIN = - (2 ^ 63)"

definition INT64_MAX :: int where
  "INT64_MAX = 2 ^ 63 - 1"

definition int64 :: "int \<Rightarrow> nsecs_t option" where
  "int64 x = (if INT64_MIN \<le> x \<and> x \<le> INT64_MAX then Some x else None)"

definition add64 :: "nsecs_t \<Rightarrow> nsecs_t \<Rightarrow> nsecs_t option" where
  "add64 a b = int64 (a + b)"

definition sub64 :: "nsecs_t \<Rightarrow> nsecs_t \<Rightarrow> nsecs_t option" where
  "sub64 a b = int64 (a - b)"

definition rem64 :: "nsecs_t \<Rightarrow> nsecs_t \<Rightarrow> nsecs_t option" where
  "rem64 a b = (if b = 0 \<or> (a = INT64_MIN \<and> b = - 1) then None else Some (a smod b))"

text \<open>\<open>toNs\<close> of the chrono literals used by the tests.\<close>

definition ms :: "int \<Rightarrow> nsecs_t" where
  "ms n = n * 1000000"

definition us :: "int \<Rightarrow> nsecs_t" where
  "us n = n * 1000"

section \<open>The stub trackers of VSyncDispatchRealtimeTest.cpp\<close>

text \<open>
  \<open>StubTracker\<close> holds the period; \<open>FixedRateIdealStubTracker\<close> constructs it with
  \<open>toNs(3ms)\<close> and never changes it.
\<close>

record StubTracker =
  mPeriod :: nsecs_t

definition FixedRateIdealStubTracker :: StubTracker where
  "FixedRateIdealStubTracker = \<lparr> mPeriod = ms 3 \<rparr>"

text \<open>
  \<^verbatim>\<open>
  auto const floor = timePoint % mPeriod;
  if (floor == 0) { return timePoint; }
  return timePoint - floor + mPeriod;
  \<close>
\<close>

definition fixed_nextAnticipatedVSyncTimeFrom :: "StubTracker \<Rightarrow> nsecs_t \<Rightarrow> nsecs_t option" where
  "fixed_nextAnticipatedVSyncTimeFrom tr timePoint =
     (case rem64 timePoint (mPeriod tr) of
        None \<Rightarrow> None
      | Some flr \<Rightarrow>
          if flr = 0 then Some timePoint
          else (case sub64 timePoint flr of
                  None \<Rightarrow> None
                | Some d \<Rightarrow> add64 d (mPeriod tr)))"

text \<open>
  \<open>VRRStubTracker\<close> adds the base \<open>mBase\<close> (initially 0); \<open>set_interval\<close> replaces
  period and base together.
  \<^verbatim>\<open>
  auto const normalized_to_base = time_point - mBase;
  auto const floor = (normalized_to_base) % mPeriod;
  if (floor == 0) { return time_point; }
  return normalized_to_base - floor + mPeriod + mBase;
  \<close>
\<close>

record VRRStubTracker = StubTracker +
  mBase :: nsecs_t

definition new_VRRStubTracker :: "nsecs_t \<Rightarrow> VRRStubTracker" where
  "new_VRRStubTracker period = \<lparr> mPeriod = period, mBase = 0 \<rparr>"

definition set_interval :: "nsecs_t \<Rightarrow> nsecs_t \<Rightarrow> VRRStubTracker \<Rightarrow> VRRStubTracker" where
  "set_interval interval last_known tr = tr\<lparr> mPeriod := interval, mBase := last_known \<rparr>"

definition vrr_nextAnticipatedVSyncTimeFrom :: "VRRStubTracker \<Rightarrow> nsecs_t \<Rightarrow> nsecs_t option" where
  "vrr_nextAnticipatedVSyncTimeFrom tr time_point =
     (case sub64 time_point (mBase tr) of
        None \<Rightarrow> None
      | Some normalized_to_base \<Rightarrow>
          (case rem64 normalized_to_base (mPeriod tr) of
             None \<Rightarrow> None
           | Some flr \<Rightarrow>
               if flr = 0 then Some time_point
               else (case sub64 normalized_to_base flr of
                       None \<Rightarrow> None
                     | Some d \<Rightarrow>
                         (case add64 d (mPeriod tr) of
                            None \<Rightarrow> None
                          | Some e \<Rightarrow> add64 e (mBase tr)))))"

section \<open>SensorManager.cpp\<close>

subsection \<open>Status codes, sensors and the manager's fields\<close>

text \<open>
  \<open>status_t\<close> values of \<open>utils/Errors.h\<close> that the file names, and \<open>OTHER\<close> for every
  other code a service call may report.
\<close>

datatype status_t = NO_ERROR | NAME_NOT_FOUND | TIMED_OUT | NO_MEMORY | NO_INIT | BAD_VALUE
  | OTHER int

text \<open>
  A strong pointer \<open>sp<T>\<close> is \<open>None\<close> when null and otherwise names the remote object.
\<close>

type_synonym sp = "nat option"

text \<open>The members of \<open>Sensor\<close> that SensorManager.cpp reads.\<close>

record Sensor =
  mHandle :: int
  mStringType :: string
  mName :: string
  mType :: int
  mWakeUp :: bool

text \<open>
  The fields of a \<open>SensorManager\<close>. \<open>mSensorList\<close> and \<open>mDynamicSensorList\<close> are
  malloc'ed arrays of pointers into the vectors: \<open>None\<close> is the null pointer, and element
  \<open>i\<close> of an array holds the index of the vector element it points to.
\<close>

record SensorManager =
  mSensorServer :: sp
  mSensorList :: "nat list option"
  mDynamicSensorList :: "nat list option"
  mSensors :: "Sensor list"
  mDynamicSensors :: "Sensor list"
  mDeathObserver :: sp
  mOpPackageName :: string
  mDeviceId :: int
  mDirectConnection :: "int \<rightharpoonup> nat"
  mDirectConnectionHandle :: int
  mSensorHandleToName :: "int \<rightharpoonup> string"

definition DEVICE_ID_DEFAULT :: int where
  "DEVICE_ID_DEFAULT = 0"

subsection \<open>The remote services, as the replies they give\<close>

text \<open>
  Everything SensorManager.cpp learns from other processes is an input of the model:
  the \<open>i\<close>-th \<open>getService\<close> attempt of one \<open>waitForSensorService\<close> call answers
  \<open>getService_reply i\<close>; the sensor service answers the list queries; a new death
  observer is the object \<open>new_DeathObserver\<close>.
\<close>

record service_env =
  getService_reply :: "nat \<Rightarrow> status_t \<times> sp"
  pingBinder_reply :: status_t
  getSensorList_reply :: "string \<Rightarrow> Sensor list"
  getRuntimeSensorList_reply :: "string \<Rightarrow> int \<Rightarrow> Sensor list"
  getDynamicSensorList_reply :: "string \<Rightarrow> Sensor list"
  new_DeathObserver :: nat

subsection \<open>waitForSensorService\<close>

text \<open>
  \<^verbatim>\<open>
  for (int i = 0; i < 60; i++) {
      status_t err = getService(name, &s);
      switch (err) {
          case NAME_NOT_FOUND: sleep(1); continue;
          case NO_ERROR: if (server != nullptr) { *server = s; } return NO_ERROR;
          default: return err;
      }
  }
  return TIMED_OUT;
  \<close>
  The out-parameter \<open>server\<close> is \<open>None\<close> for a null pointer and \<open>Some v\<close> for a pointer
  to a variable holding \<open>v\<close>. The result is the status, the out-parameter afterwards, and
  the number of \<open>getService\<close> attempts made.
\<close>

function waitForSensorService_from ::
  "nat \<Rightarrow> (nat \<Rightarrow> status_t \<times> sp) \<Rightarrow> sp option \<Rightarrow> status_t \<times> sp option \<times> nat" where
  "waitForSensorService_from i getService server =
     (if i < 60 then
        (case getService i of
           (NAME_NOT_FOUND, s) \<Rightarrow> waitForSensorService_from (i + 1) getService server
         | (NO_ERROR, s) \<Rightarrow>
             (NO_ERROR, (if server \<noteq> None then Some s else server), i + 1)
         | (err, s) \<Rightarrow> (err, server, i + 1))
      else (TIMED_OUT, server, i))"
  by pat_completeness auto
termination
  by (relation "measure (\<lambda>(i, getService, server). 60 - i)") auto

definition waitForSensorService ::
  "(nat \<Rightarrow> status_t \<times> sp) \<Rightarrow> sp option \<Rightarrow> status_t \<times> sp option \<times> nat" where
  "waitForSensorService getService server = waitForSensorService_from 0 getService server"

subsection \<open>Death of the service and re-initialisation\<close>

definition sensorManagerDied :: "SensorManager \<Rightarrow> SensorManager" where
  "sensorManagerDied m =
     m\<lparr> mSensorServer := None, mSensorList := None, mSensors := [],
        mDynamicSensorList := None, mDynamicSensors := [] \<rparr>"

text \<open>
  \<open>LOG_ALWAYS_FATAL_IF\<close> aborts the process: the result \<open>Inl Fatal\<close>. The result
  \<open>Inl SignedOverflow\<close> is for a call whose behaviour C++ leaves undefined because it
  increments an \<open>int32_t\<close> that holds \<open>INT32_MAX\<close>. A successful
  call also reports the death links it registered, as pairs (server, observer).
  \<open>ping_flag\<close> is the build flag \<open>SENSORMANAGER_PING_BINDER\<close>: when it is set the
  preprocessor keeps only the null test, otherwise the binder is pinged as well.
\<close>

datatype fatal = Fatal | SignedOverflow

definition INT32_MAX :: int where
  "INT32_MAX = 2 ^ 31 - 1"

definition initSensorManager_needed :: "bool \<Rightarrow> service_env \<Rightarrow> SensorManager \<Rightarrow> bool" where
  "initSensorManager_needed ping_flag env m =
     (if ping_flag then mSensorServer m = None
      else (if mSensorServer m = None then True else pingBinder_reply env \<noteq> NO_ERROR))"

definition assertStateLocked ::
  "bool \<Rightarrow> service_env \<Rightarrow> SensorManager
     \<Rightarrow> fatal + (status_t \<times> SensorManager \<times> (nat \<times> nat) list)" where
  "assertStateLocked ping_flag env m =
     (if initSensorManager_needed ping_flag env m then
        (case waitForSensorService (getService_reply env) (Some (mSensorServer m)) of
           (err, server, n) \<Rightarrow>
             (case (case server of None \<Rightarrow> mSensorServer m | Some s \<Rightarrow> s) of
                None \<Rightarrow> Inl Fatal
              | Some srv \<Rightarrow>
                  (let sensors =
                         (if mDeviceId m = DEVICE_ID_DEFAULT
                          then getSensorList_reply env (mOpPackageName m)
                          else getRuntimeSensorList_reply env (mOpPackageName m) (mDeviceId m))
                   in Inr (NO_ERROR,
                           m\<lparr> mSensorServer := Some srv,
                              mDeathObserver := Some (new_DeathObserver env),
                              mSensors := sensors,
                              mSensorList := Some [0 ..< length sensors] \<rparr>,
                           [(srv, new_DeathObserver env)]))))
      else Inr (NO_ERROR, m, []))"

text \<open>
  The constructor: \<open>mSensorList(nullptr)\<close>, the package name, the device id and
  \<open>mDirectConnectionHandle(1)\<close>, every other member default-initialised (null pointers,
  empty containers), followed by \<open>assertStateLocked()\<close>.
\<close>

definition SensorManager_fields :: "string \<Rightarrow> int \<Rightarrow> SensorManager" where
  "SensorManager_fields opPackageName deviceId =
     \<lparr> mSensorServer = None, mSensorList = None, mDynamicSensorList = None,
       mSensors = [], mDynamicSensors = [], mDeathObserver = None,
       mOpPackageName = opPackageName, mDeviceId = deviceId,
       mDirectConnection = Map.empty, mDirectConnectionHandle = 1,
       mSensorHandleToName = Map.empty \<rparr>"

definition new_SensorManager ::
  "bool \<Rightarrow> service_env \<Rightarrow> string \<Rightarrow> int \<Rightarrow> fatal + SensorManager" where
  "new_SensorManager ping_flag env opPackageName deviceId =
     (case assertStateLocked ping_flag env (SensorManager_fields opPackageName deviceId) of
        Inl f \<Rightarrow> Inl f
      | Inr (err, m, links) \<Rightarrow> Inr m)"

subsection \<open>Operations on an initialised manager\<close>

text \<open>
  \<open>getDynamicSensorList(Sensor const* const** list)\<close>: the result is the count or the
  error, the manager afterwards, and the array handed out.
\<close>

definition getDynamicSensorList ::
  "bool \<Rightarrow> service_env \<Rightarrow> SensorManager \<Rightarrow> fatal + (int \<times> SensorManager)" where
  "getDynamicSensorList ping_flag env m =
     (case assertStateLocked ping_flag env m of
        Inl f \<Rightarrow> Inl f
      | Inr (err, m1, links) \<Rightarrow>
          (let dyn = getDynamicSensorList_reply env (mOpPackageName m1);
               m2 = m1\<lparr> mDynamicSensorList := None, mDynamicSensors := dyn \<rparr>
           in if 0 < length dyn
              then Inr (int (length dyn), m2\<lparr> mDynamicSensorList := Some [0 ..< length dyn] \<rparr>)
              else Inr (int (length dyn), m2)))"

text \<open>
  \<open>createDirectChannel\<close>: \<open>conn\<close> is the connection the service returns (null when it
  refuses); \<open>channelType_ok\<close> says whether the type is ASHMEM or GRALLOC.
  \<open>int nativeHandle = mDirectConnectionHandle++\<close> is on an \<open>int32_t\<close> member.
\<close>

definition createDirectChannel ::
  "bool \<Rightarrow> service_env \<Rightarrow> bool \<Rightarrow> sp \<Rightarrow> SensorManager
     \<Rightarrow> fatal + ((status_t + int) \<times> SensorManager)" where
  "createDirectChannel ping_flag env channelType_ok conn m =
     (case assertStateLocked ping_flag env m of
        Inl f \<Rightarrow> Inl f
      | Inr (err, m1, links) \<Rightarrow>
          if err \<noteq> NO_ERROR then Inr (Inl NO_INIT, m1)
          else if \<not> channelType_ok then Inr (Inl BAD_VALUE, m1)
          else (case conn of
                  None \<Rightarrow> Inr (Inl NO_MEMORY, m1)
                | Some c \<Rightarrow>
                    (let nativeHandle = mDirectConnectionHandle m1
                     in if nativeHandle = INT32_MAX then Inl SignedOverflow
                        else
                        Inr (Inr nativeHandle,
                             m1\<lparr> mDirectConnectionHandle := nativeHandle + 1,
                                mDirectConnection :=
                                  (case mDirectConnection m1 nativeHandle of
                                     None \<Rightarrow> (mDirectConnection m1)(nativeHandle \<mapsto> c)
                                   | Some old \<Rightarrow> mDirectConnection m1) \<rparr>))))"

subsection \<open>Sensor names by handle\<close>

text \<open>
  \<^verbatim>\<open>
  for (auto& sensor : sensorList) {
      if (sensor.getHandle() == handle) {
          oss << sensor.getStringType() << ":" << sensor.getName();
          if (outString) { *outString = oss.str(); }
          return true;
      }
  }
  return false;
  \<close>
  The out-parameter is \<open>None\<close> for a null pointer.
\<close>

fun findSensorNameInList :: "int \<Rightarrow> Sensor list \<Rightarrow> string option \<Rightarrow> bool \<times> string option" where
  "findSensorNameInList handle [] outString = (False, outString)"
| "findSensorNameInList handle (sensor # sensorList) outString =
     (if mHandle sensor = handle
      then (True, (if outString \<noteq> None
                   then Some (mStringType sensor @ '':'' @ mName sensor) else outString))
      else findSensorNameInList handle sensorList outString)"

definition getSensorNameByHandle :: "int \<Rightarrow> SensorManager \<Rightarrow> string option \<times> SensorManager" where
  "getSensorNameByHandle handle m =
     (case mSensorHandleToName m handle of
        Some cached \<Rightarrow> (Some cached, m)
      | None \<Rightarrow>
          (case findSensorNameInList handle (mSensors m) (Some []) of
             (found1, sensorName1) \<Rightarrow>
               (case (if found1 then (True, sensorName1)
                      else findSensorNameInList handle (mDynamicSensors m) sensorName1) of
                  (found, sensorName) \<Rightarrow>
                    if \<not> found then (None, m)
                    else (sensorName,
                          m\<lparr> mSensorHandleToName :=
                               (mSensorHandleToName m)(handle := sensorName) \<rparr>))))"

text \<open>
  The calls of this file that touch the sensor vectors or the name cache, run in any
  order on one manager. A call that aborts the process ends the run.
\<close>

datatype manager_call =
    GetSensorNameByHandle int
  | SensorManagerDied
  | AssertStateLocked service_env
  | GetDynamicSensorList service_env

fun manager_step :: "bool \<Rightarrow> manager_call \<Rightarrow> SensorManager \<Rightarrow> SensorManager option" where
  "manager_step ping_flag (GetSensorNameByHandle h) m = Some (snd (getSensorNameByHandle h m))"
| "manager_step ping_flag SensorManagerDied m = Some (sensorManagerDied m)"
| "manager_step ping_flag (AssertStateLocked env) m =
     (case assertStateLocked ping_flag env m of
        Inl f \<Rightarrow> None | Inr (err, m', links) \<Rightarrow> Some m')"
| "manager_step ping_flag (GetDynamicSensorList env) m =
     (case getDynamicSensorList ping_flag env m of
        Inl f \<Rightarrow> None | Inr (n, m') \<Rightarrow> Some m')"

fun manager_run :: "bool \<Rightarrow> manager_call list \<Rightarrow> SensorManager \<Rightarrow> SensorManager option" where
  "manager_run ping_flag [] m = Some m"
| "manager_run ping_flag (c # cs) m =
     (case manager_step ping_flag c m of
        None \<Rightarrow> None
      | Some m' \<Rightarrow> manager_run ping_flag cs m')"

subsection \<open>The per-package registry\<close>

text \<open>
  \<open>getDeviceIdForUid\<close>: the virtual device manager, when its binder is found, answers
  with the device ids of the uid and with the sensor policy of a device. The reply of
  \<open>getDevicePolicy\<close> overwrites the local \<open>devicePolicy\<close>, which starts as
  \<open>DEVICE_POLICY_DEFAULT\<close>.
\<close>

datatype device_policy = DEVICE_POLICY_DEFAULT | DEVICE_POLICY_CUSTOM

record vdm_replies =
  getDeviceIdsForUid_reply :: "nat \<Rightarrow> int list"
  getDevicePolicy_reply :: "int \<Rightarrow> device_policy"

definition getDeviceIdForUid :: "vdm_replies option \<Rightarrow> nat \<Rightarrow> int" where
  "getDeviceIdForUid binder uid =
     (case binder of
        None \<Rightarrow> DEVICE_ID_DEFAULT
      | Some vdm \<Rightarrow>
          (case getDeviceIdsForUid_reply vdm uid of
             [deviceId] \<Rightarrow>
               if getDevicePolicy_reply vdm deviceId = DEVICE_POLICY_CUSTOM then deviceId
               else DEVICE_ID_DEFAULT
           | _ \<Rightarrow> DEVICE_ID_DEFAULT))"

text \<open>
  The process state the registry lives in: the heap of \<open>SensorManager\<close> objects, by
  address, the static map \<open>sPackageInstances\<close> from package names to addresses, and the
  next address \<open>new\<close> hands out.
\<close>

record registry =
  heap :: "nat \<rightharpoonup> SensorManager"
  sPackageInstances :: "string \<rightharpoonup> nat"
  next_address :: nat

definition empty_registry :: registry where
  "empty_registry = \<lparr> heap = Map.empty, sPackageInstances = Map.empty, next_address = 0 \<rparr>"

text \<open>\<open>std::map::insert\<close> leaves the map alone when the key is already present.\<close>

definition map_insert :: "('k \<rightharpoonup> 'v) \<Rightarrow> 'k \<Rightarrow> 'v \<Rightarrow> ('k \<rightharpoonup> 'v)" where
  "map_insert m k v = (case m k of None \<Rightarrow> m(k \<mapsto> v) | Some old \<Rightarrow> m)"

text \<open>
  What one call of \<open>getInstanceForPackage\<close> is told by the rest of the system: the
  calling uid, the virtual device manager (if any), the packages of the uid as the
  permission service lists them (\<open>None\<close> when that service is not found), and the sensor
  service.
\<close>

record caller_env =
  callingUid :: nat
  virtualdevice_native :: "vdm_replies option"
  permission_packages :: "string list option"
  sensorservice :: service_env

text \<open>
  \<^verbatim>\<open>
  waitForSensorService(nullptr);
  auto iterator = sPackageInstances.find(packageName);
  const int deviceId = getDeviceIdForUid(uid);
  if (iterator != sPackageInstances.end()) {
      sensorManager = iterator->second;
      if (sensorManager->mDeviceId == deviceId) { return *sensorManager; }
  }
  String16 opPackageName = packageName;
  if (opPackageName.size() <= 0) { ... opPackageName = packages[0]; ... }
  sensorManager = new SensorManager(opPackageName, deviceId);
  if (packageName.size() <= 0) {
      sPackageInstances.insert(std::make_pair(String16(), sensorManager));
  }
  sPackageInstances.insert(std::make_pair(opPackageName, sensorManager));
  return *sensorManager;
  \<close>
  The result is the address of the manager returned and the registry afterwards. A
  registry entry whose object is not on the heap is a dangling pointer; reading through
  it is undefined and ends the model's run like an abort.
\<close>

definition resolve_opPackageName :: "string \<Rightarrow> caller_env \<Rightarrow> string" where
  "resolve_opPackageName packageName env =
     (if length packageName \<le> 0 then
        (case permission_packages env of
           None \<Rightarrow> packageName
         | Some [] \<Rightarrow> packageName
         | Some (p # ps) \<Rightarrow> p)
      else packageName)"

definition create_and_stash ::
  "bool \<Rightarrow> caller_env \<Rightarrow> string \<Rightarrow> int \<Rightarrow> registry \<Rightarrow> fatal + (nat \<times> registry)" where
  "create_and_stash ping_flag env packageName deviceId r =
     (let opPackageName = resolve_opPackageName packageName env in
      case new_SensorManager ping_flag (sensorservice env) opPackageName deviceId of
        Inl f \<Rightarrow> Inl f
      | Inr m \<Rightarrow>
          (let sensorManager = next_address r;
               inst1 = (if length packageName \<le> 0
                        then map_insert (sPackageInstances r) [] sensorManager
                        else sPackageInstances r);
               inst2 = map_insert inst1 opPackageName sensorManager
           in Inr (sensorManager,
                   r\<lparr> heap := (heap r)(sensorManager \<mapsto> m),
                      sPackageInstances := inst2,
                      next_address := sensorManager + 1 \<rparr>)))"

definition getInstanceForPackage ::
  "bool \<Rightarrow> caller_env \<Rightarrow> string \<Rightarrow> registry \<Rightarrow> fatal + (nat \<times> registry)" where
  "getInstanceForPackage ping_flag env packageName r =
     (let waited = waitForSensorService (getService_reply (sensorservice env)) None;
          deviceId = getDeviceIdForUid (virtualdevice_native env) (callingUid env)
      in case sPackageInstances r packageName of
           Some sensorManager \<Rightarrow>
             (case heap r sensorManager of
                None \<Rightarrow> Inl Fatal
              | Some m \<Rightarrow>
                  if mDeviceId m = deviceId then Inr (sensorManager, r)
                  else create_and_stash ping_flag env packageName deviceId r)
         | None \<Rightarrow> create_and_stash ping_flag env packageName deviceId r)"

definition removeInstanceForPackage :: "string \<Rightarrow> registry \<Rightarrow> registry" where
  "removeInstanceForPackage packageName r =
     (case sPackageInstances r packageName of
        None \<Rightarrow> r
      | Some sensorManager \<Rightarrow>
          r\<lparr> heap := (heap r)(sensorManager := None),
             sPackageInstances := (sPackageInstances r)(packageName := None) \<rparr>)"

text \<open>
  A sensor service that is up: the first \<open>getService\<close> attempt succeeds with the
  connection \<open>srv\<close>, and every list query answers \<open>sensors\<close>. A caller on virtual
  device \<open>deviceId\<close> with a custom sensor policy, and a caller on the default device.
\<close>

definition service_up :: "nat \<Rightarrow> Sensor list \<Rightarrow> service_env" where
  "service_up srv sensors =
     \<lparr> getService_reply = (\<lambda>i. (NO_ERROR, Some srv)),
       pingBinder_reply = NO_ERROR,
       getSensorList_reply = (\<lambda>p. sensors),
       getRuntimeSensorList_reply = (\<lambda>p d. sensors),
       getDynamicSensorList_reply = (\<lambda>p. []),
       new_DeathObserver = 0 \<rparr>"

definition caller_on_default_device :: caller_env where
  "caller_on_default_device =
     \<lparr> callingUid = 10001, virtualdevice_native = None,
       permission_packages = Some [''com.example''],
       sensorservice = service_up 7 [] \<rparr>"

definition caller_on_virtual_device :: "int \<Rightarrow> caller_env" where
  "caller_on_virtual_device deviceId =
     \<lparr> callingUid = 10001,
       virtualdevice_native =
         Some \<lparr> getDeviceIdsForUid_reply = (\<lambda>uid. [deviceId]),
                getDevicePolicy_reply = (\<lambda>d. DEVICE_POLICY_CUSTOM) \<rparr>,
       permission_packages = Some [''com.example''],
       sensorservice = service_up 7 [] \<rparr>"

text \<open>A sequence of \<open>getInstanceForPackage\<close> calls, with the addresses they return.\<close>

fun getInstance_calls ::
  "bool \<Rightarrow> (caller_env \<times> string) list \<Rightarrow> registry \<Rightarrow> fatal + (nat list \<times> registry)" where
  "getInstance_calls ping_flag [] r = Inr ([], r)"
| "getInstance_calls ping_flag ((env, packageName) # calls) r =
     (case getInstanceForPackage ping_flag env packageName r of
        Inl f \<Rightarrow> Inl f
      | Inr (a, r') \<Rightarrow>
          (case getInstance_calls ping_flag calls r' of
             Inl f \<Rightarrow> Inl f
           | Inr (as, r'') \<Rightarrow> Inr (a # as, r'')))"

text \<open>
  Example states: a manager as the constructor leaves it when the service \<open>srv\<close> is up
  and reports \<open>sensors\<close>, and the same manager after it has opened one direct channel and
  looked up the name of handle 1.
\<close>

definition accel_sensor :: Sensor where
  "accel_sensor = \<lparr> mHandle = 1, mStringType = ''accel'', mName = ''acc0'',
                     mType = 1, mWakeUp = False \<rparr>"

definition fresh_manager :: "nat \<Rightarrow> Sensor list \<Rightarrow> SensorManager" where
  "fresh_manager srv sensors =
     (SensorManager_fields ''pkg'' 0)
       \<lparr> mSensorServer := Some srv, mDeathObserver := Some 0,
         mSensors := sensors, mSensorList := Some [0 ..< length sensors] \<rparr>"

definition manager_in_use :: SensorManager where
  "manager_in_use =
     (fresh_manager 7 [accel_sensor])
       \<lparr> mDirectConnection := [1 \<mapsto> 3], mDirectConnectionHandle := 2,
         mSensorHandleToName := [1 \<mapsto> ''accel:acc0''] \<rparr>"

section \<open>The dispatch engine\<close>

text \<open>
  Modelled from the spec: \<open>VSyncDispatchTimerQueue\<close>, \<open>VSyncCallbackRegistration\<close> and
  \<open>Timer\<close> (Scheduler/VSyncDispatchTimerQueue.h, scheduler/Timer.h), which the test file
  includes and drives but which are not among the sources. The definitions of this
  section follow sections 3, 4 and 6 of the design: the Registration with its states, the
  Engine with its single armed deadline, \<open>schedule\<close>, \<open>cancel\<close>, \<open>registerCallback\<close>,
  \<open>unregisterCallback\<close>, \<open>recomputeNextDeadline\<close> and \<open>onTimerFired\<close>. Times of the
  design are unbounded integers. The Timer accepts every arm and disarm request.
\<close>

datatype reg_state =
    Disarmed
  | Scheduled (wakeupTime : nsecs_t) (targetPulseTime : nsecs_t)
  | Dispatching

record Registration =
  reg_name :: string
  workDuration :: nsecs_t
  readyDuration :: nsecs_t
  lastKnownPulse :: nsecs_t
  earliestVsyncTime :: nsecs_t
  reg_state :: reg_state

text \<open>
  A registration handle is an index into \<open>registrations\<close>; a released registration
  leaves \<open>None\<close> behind. \<open>armed\<close> is the deadline of the Timer, \<open>None\<close> when it is
  disarmed: the Timer holds at most one deadline.
\<close>

record Engine =
  registrations :: "Registration option list"
  armed :: "nsecs_t option"
  moveThreshold :: nsecs_t
  groupThreshold :: nsecs_t

datatype engine_error = NotRegistered | AlreadyReleased | PredictorUnavailable | TimerArmFailure

definition new_Engine :: "nsecs_t \<Rightarrow> nsecs_t \<Rightarrow> Engine" where
  "new_Engine group_threshold move_threshold =
     \<lparr> registrations = [], armed = None,
       moveThreshold = move_threshold, groupThreshold = group_threshold \<rparr>"

definition lookup_registration :: "Engine \<Rightarrow> nat \<Rightarrow> Registration option" where
  "lookup_registration e h =
     (if h < length (registrations e) then registrations e ! h else None)"

text \<open>The wakeup times of all \<open>Scheduled\<close> registrations, and their minimum.\<close>

fun scheduled_wakeups :: "Registration option list \<Rightarrow> nsecs_t list" where
  "scheduled_wakeups [] = []"
| "scheduled_wakeups (None # rs) = scheduled_wakeups rs"
| "scheduled_wakeups (Some r # rs) =
     (case reg_state r of
        Scheduled w p \<Rightarrow> w # scheduled_wakeups rs
      | _ \<Rightarrow> scheduled_wakeups rs)"

fun minimum :: "nsecs_t list \<Rightarrow> nsecs_t option" where
  "minimum [] = None"
| "minimum (w # ws) = (case minimum ws of None \<Rightarrow> Some w | Some m \<Rightarrow> Some (min w m))"

definition min_wakeup :: "Engine \<Rightarrow> nsecs_t option" where
  "min_wakeup e = minimum (scheduled_wakeups (registrations e))"

text \<open>
  \<open>recomputeNextDeadline\<close>: find the minimum wakeup time of the \<open>Scheduled\<close>
  registrations; re-arm only if \<open>|newMin - armed| \<ge> moveThreshold\<close> or nothing is armed;
  disarm if no registration remains \<open>Scheduled\<close>.
\<close>

definition recomputeNextDeadline :: "Engine \<Rightarrow> Engine" where
  "recomputeNextDeadline e =
     (case min_wakeup e of
        None \<Rightarrow> e\<lparr> armed := None \<rparr>
      | Some newMin \<Rightarrow>
          (case armed e of
             None \<Rightarrow> e\<lparr> armed := Some newMin \<rparr>
           | Some a \<Rightarrow>
               if \<bar>newMin - a\<bar> \<ge> moveThreshold e then e\<lparr> armed := Some newMin \<rparr> else e))"

text \<open>\<open>registerCallback\<close>: pure bookkeeping, returns the handle.\<close>

definition registerCallback :: "string \<Rightarrow> Engine \<Rightarrow> nat \<times> Engine" where
  "registerCallback name e =
     (length (registrations e),
      e\<lparr> registrations := registrations e @
            [Some \<lparr> reg_name = name, workDuration = 0, readyDuration = 0, lastKnownPulse = 0,
                    earliestVsyncTime = 0, reg_state = Disarmed \<rparr>] \<rparr>)"

text \<open>
  \<open>schedule(workDuration, readyDuration, lastKnownPulse)\<close>: the earliest pulse is
  \<open>lastKnownPulse + workDuration + readyDuration\<close>; the Tracker is asked for the next
  pulse at or after it, and the wakeup time is that pulse minus both durations. A pending
  target is overwritten. The call fails for a released registration, and when the
  Tracker has no estimate. The Tracker is the function \<open>tracker\<close>, queried at every
  call. The Engine then recomputes its deadline.
\<close>

definition schedule ::
  "(nsecs_t \<Rightarrow> nsecs_t option) \<Rightarrow> nat \<Rightarrow> nsecs_t \<Rightarrow> nsecs_t \<Rightarrow> nsecs_t \<Rightarrow> Engine
     \<Rightarrow> engine_error + Engine" where
  "schedule tracker h work ready lastPulse e =
     (case lookup_registration e h of
        None \<Rightarrow> Inl NotRegistered
      | Some r \<Rightarrow>
          (let earliest = lastPulse + work + ready in
           case tracker earliest of
             None \<Rightarrow> Inl PredictorUnavailable
           | Some predictedPulse \<Rightarrow>
               Inr (recomputeNextDeadline
                     (e\<lparr> registrations := (registrations e)
                           [h := Some (r\<lparr> workDuration := work, readyDuration := ready,
                                         lastKnownPulse := lastPulse,
                                         earliestVsyncTime := earliest,
                                         reg_state := Scheduled (predictedPulse - work - ready)
                                                        predictedPulse \<rparr>)] \<rparr>))))"

text \<open>
  \<open>cancel\<close>: removes a pending target; nothing happens when none is pending, and an
  invocation in progress is not affected.
\<close>

definition cancel :: "nat \<Rightarrow> Engine \<Rightarrow> engine_error + Engine" where
  "cancel h e =
     (case lookup_registration e h of
        None \<Rightarrow> Inl NotRegistered
      | Some r \<Rightarrow>
          (case reg_state r of
             Scheduled w p \<Rightarrow>
               Inr (recomputeNextDeadline
                     (e\<lparr> registrations := (registrations e)
                           [h := Some (r\<lparr> reg_state := Disarmed \<rparr>)] \<rparr>))
           | _ \<Rightarrow> Inr e))"

text \<open>\<open>unregisterCallback\<close>: cancels a pending target, then removes the bookkeeping.\<close>

definition unregisterCallback :: "nat \<Rightarrow> Engine \<Rightarrow> engine_error + Engine" where
  "unregisterCallback h e =
     (if length (registrations e) \<le> h then Inl NotRegistered
      else case registrations e ! h of
             None \<Rightarrow> Inl AlreadyReleased
           | Some r \<Rightarrow>
               Inr (recomputeNextDeadline
                     (e\<lparr> registrations := (registrations e)[h := None] \<rparr>)))"

text \<open>
  \<open>onTimerFired(firedTime)\<close>: every \<open>Scheduled\<close> registration whose wakeup time lies
  in \<open>[firedTime - groupThreshold, firedTime + groupThreshold]\<close> becomes \<open>Dispatching\<close>
  and its callback is invoked with (invocation time, wakeup time, pulse time); after
  the callbacks return the registrations are \<open>Disarmed\<close> and the deadline is recomputed.
  The Timer is one-shot: once it has fired nothing is armed. An invocation is recorded as
  the handle and the three arguments of the callback.
\<close>

type_synonym invocation = "nat \<times> nsecs_t \<times> nsecs_t \<times> nsecs_t"

definition is_due :: "Engine \<Rightarrow> nsecs_t \<Rightarrow> Registration option \<Rightarrow> bool" where
  "is_due e firedTime ro =
     (case ro of
        None \<Rightarrow> False
      | Some r \<Rightarrow>
          (case reg_state r of
             Scheduled w p \<Rightarrow> firedTime - groupThreshold e \<le> w \<and> w \<le> firedTime + groupThreshold e
           | _ \<Rightarrow> False))"

definition begin_dispatch :: "Engine \<Rightarrow> nsecs_t \<Rightarrow> Registration option \<Rightarrow> Registration option" where
  "begin_dispatch e firedTime ro =
     (if is_due e firedTime ro then map_option (\<lambda>r. r\<lparr> reg_state := Dispatching \<rparr>) ro else ro)"

definition end_dispatch :: "Registration option \<Rightarrow> Registration option" where
  "end_dispatch ro =
     (case ro of
        None \<Rightarrow> None
      | Some r \<Rightarrow> (if reg_state r = Dispatching then Some (r\<lparr> reg_state := Disarmed \<rparr>) else Some r))"

fun invocations_from :: "Engine \<Rightarrow> nsecs_t \<Rightarrow> nat \<Rightarrow> Registration option list \<Rightarrow> invocation list" where
  "invocations_from e firedTime h [] = []"
| "invocations_from e firedTime h (ro # rs) =
     (if is_due e firedTime ro
      then (case map_option reg_state ro of
              Some (Scheduled w p) \<Rightarrow> (h, firedTime, w, p) # invocations_from e firedTime (h + 1) rs
            | _ \<Rightarrow> invocations_from e firedTime (h + 1) rs)
      else invocations_from e firedTime (h + 1) rs)"

definition onTimerFired :: "nsecs_t \<Rightarrow> Engine \<Rightarrow> invocation list \<times> Engine" where
  "onTimerFired firedTime e =
     (let invs = invocations_from e firedTime 0 (registrations e);
          dispatching = map (begin_dispatch e firedTime) (registrations e);
          returned = map end_dispatch dispatching
      in (invs, recomputeNextDeadline (e\<lparr> registrations := returned, armed := None \<rparr>)))"

text \<open>
  Sequences of Engine operations. An operation that fails leaves the Engine as it was;
  the Timer fires only when it is armed.
\<close>

datatype engine_op =
    RegisterCallback string
  | UnregisterCallback nat
  | Schedule "nsecs_t \<Rightarrow> nsecs_t option" nat nsecs_t nsecs_t nsecs_t
  | Cancel nat
  | TimerFired nsecs_t

fun engine_step :: "engine_op \<Rightarrow> Engine \<Rightarrow> Engine" where
  "engine_step (RegisterCallback name) e = snd (registerCallback name e)"
| "engine_step (UnregisterCallback h) e =
     (case unregisterCallback h e of Inl err \<Rightarrow> e | Inr e' \<Rightarrow> e')"
| "engine_step (Schedule tracker h work ready lastPulse) e =
     (case schedule tracker h work ready lastPulse e of Inl err \<Rightarrow> e | Inr e' \<Rightarrow> e')"
| "engine_step (Cancel h) e = (case cancel h e of Inl err \<Rightarrow> e | Inr e' \<Rightarrow> e')"
| "engine_step (TimerFired firedTime) e =
     (case armed e of None \<Rightarrow> e | Some a \<Rightarrow> snd (onTimerFired firedTime e))"

fun engine_run :: "engine_op list \<Rightarrow> Engine \<Rightarrow> Engine" where
  "engine_run [] e = e"
| "engine_run (op # ops) e = engine_run ops (engine_step op e)"

text \<open>
  The relation between the armed deadline and the pending wakeups that every Engine
  operation establishes: the Timer is disarmed exactly when nothing is \<open>Scheduled\<close>, and
  an armed deadline is the minimum wakeup time or closer to it than the move threshold.
\<close>

definition deadline_ok :: "Engine \<Rightarrow> bool" where
  "deadline_ok e =
     ((armed e = None \<longleftrightarrow> min_wakeup e = None)
      \<and> (\<forall>a w. armed e = Some a \<and> min_wakeup e = Some w
            \<longrightarrow> a = w \<or> \<bar>w - a\<bar> < moveThreshold e))"

section \<open>The test harness of VSyncDispatchRealtimeTest.cpp\<close>

subsection \<open>RepeatingCallbackReceiver\<close>

text \<open>
  The receiver holds its durations, its registration with the dispatch (a handle), and
  the state its callback writes. The callback it registers passes the first of its three
  arguments to \<open>callback_called\<close>:
  \<^verbatim>\<open>
  mCallbackTimes.push_back(time); mCalled = true; mLastTarget = time; mCv.notify_all();
  \<close>
\<close>

record RepeatingCallbackReceiver =
  mWorkload :: nsecs_t
  mReadyDuration :: nsecs_t
  mCallback :: nat
  mCalled :: bool
  mLastTarget :: nsecs_t
  mCallbackTimes :: "nsecs_t list"

definition new_RepeatingCallbackReceiver ::
  "nsecs_t \<Rightarrow> nsecs_t \<Rightarrow> Engine \<Rightarrow> RepeatingCallbackReceiver \<times> Engine" where
  "new_RepeatingCallbackReceiver workload ready dispatch =
     (case registerCallback ''repeat0'' dispatch of
        (h, dispatch') \<Rightarrow>
          (\<lparr> mWorkload = workload, mReadyDuration = ready, mCallback = h,
             mCalled = False, mLastTarget = 0, mCallbackTimes = [] \<rparr>, dispatch'))"

definition callback_called :: "nsecs_t \<Rightarrow> RepeatingCallbackReceiver \<Rightarrow> RepeatingCallbackReceiver" where
  "callback_called time r =
     r\<lparr> mCallbackTimes := mCallbackTimes r @ [time], mCalled := True, mLastTarget := time \<rparr>"

subsection \<open>The objects a test shares between its threads\<close>

text \<open>
  The tracker is one of the two stub classes; \<open>nextAnticipatedVSyncTimeFrom\<close> is the
  virtual call. A test has its dispatch, its tracker, its receivers, the variables its
  \<open>on_each_frame\<close> closure captures (\<open>captured\<close>), and the invocations the timer thread
  has made so far (\<open>delivered\<close>). The Timer is part of the test's environment:
  \<open>timer_latency n\<close> is how long after the deadline armed at that moment its firing
  number \<open>n\<close> happens, and \<open>fired\<close> counts its firings so far.
\<close>

datatype tracker = FixedRate StubTracker | VRR VRRStubTracker


record 'c world =
  dispatch :: Engine
  tracker :: tracker
  cb_receiver :: "RepeatingCallbackReceiver list"
  captured :: 'c
  delivered :: "invocation list"
  timer_latency :: "nat \<Rightarrow> nsecs_t"
  fired :: nat

text \<open>
  An invocation reaches the receiver that registered the callback: the one whose handle
  the invocation carries. Its callback passes the invocation time to \<open>callback_called\<close>.
\<close>

definition deliver ::
  "invocation \<Rightarrow> RepeatingCallbackReceiver list \<Rightarrow> RepeatingCallbackReceiver list" where
  "deliver iv rs =
     (case iv of (h, time, wakeup, pulse) \<Rightarrow>
        map (\<lambda>r. if mCallback r = h then callback_called time r else r) rs)"





text \<open>\<open>last + mWorkload + mReadyDuration\<close> in \<open>nsecs_t\<close>.\<close>

definition lastVsync_of :: "nsecs_t \<Rightarrow> RepeatingCallbackReceiver \<Rightarrow> nsecs_t option" where
  "lastVsync_of t r =
     (case add64 t (mWorkload r) of
        None \<Rightarrow> None
      | Some x \<Rightarrow> add64 x (mReadyDuration r))"



subsection \<open>The two single-client tests\<close>

definition mDispatchGroupThreshold :: nsecs_t where
  "mDispatchGroupThreshold = us 100"

definition mVsyncMoveThreshold :: nsecs_t where
  "mVsyncMoveThreshold = us 500"










text \<open>
  The shape of a single-client test between two cycles: nothing is scheduled, the Timer
  is disarmed, and the receiver holds the times delivered so far. \<open>called\<close> is the
  receiver's \<open>mCalled\<close>, \<open>rg\<close> the attributes the registration was last scheduled with,
  \<open>lat\<close> the latency of the Timer and \<open>n\<close> the number of its firings so far.
\<close>

definition idle_world ::
  "bool \<Rightarrow> tracker \<Rightarrow> 'c \<Rightarrow> nsecs_t \<Rightarrow> nsecs_t list \<Rightarrow> invocation list \<Rightarrow> Registration
     \<Rightarrow> (nat \<Rightarrow> nsecs_t) \<Rightarrow> nat \<Rightarrow> 'c world" where
  "idle_world called tr c last_target tms dl rg lat n =
     \<lparr> dispatch =
         \<lparr> registrations = [Some (rg\<lparr> reg_state := Disarmed \<rparr>)], armed = None,
           moveThreshold = mVsyncMoveThreshold, groupThreshold = mDispatchGroupThreshold \<rparr>,
       tracker = tr,
       cb_receiver =
         [\<lparr> mWorkload = ms 1, mReadyDuration = ms 5, mCallback = 0, mCalled = called,
            mLastTarget = last_target, mCallbackTimes = tms \<rparr>],
       captured = c, delivered = dl, timer_latency = lat, fired = n \<rparr>"






subsection \<open>The test with three clients\<close>

text \<open>
  \<open>triple_alarm\<close> builds a \<open>FixedRateIdealStubTracker\<close>, one dispatch and three
  receivers with (workload, ready duration) = (1500us, 2500us), (0, 0) and (1ms, 3ms),
  and runs \<open>repeatedly_schedule(mIterations, on_each_frame)\<close> of each receiver on a
  thread of its own; \<open>on_each_frame\<close> does nothing. The captured state of the model is
  where each of the three threads stands in \<open>repeatedly_schedule\<close>:
  before its first \<open>schedule\<close>; waiting at the top of loop iteration \<open>i\<close>; waiting
  for the last callback; returned. \<open>lat\<close> is the latency of the Timer the test runs with.
\<close>

datatype thread = NotStarted | Looping nat | FinalWait | Finished

definition triple_alarm_world :: "(nat \<Rightarrow> nsecs_t) \<Rightarrow> thread list world" where
  "triple_alarm_world lat =
     (case new_RepeatingCallbackReceiver (us 1500) (us 2500)
             (new_Engine mDispatchGroupThreshold mVsyncMoveThreshold) of
        (r0, d0) \<Rightarrow>
          (case new_RepeatingCallbackReceiver 0 0 d0 of
             (r1, d1) \<Rightarrow>
               (case new_RepeatingCallbackReceiver (ms 1) (ms 3) d1 of
                  (r2, d2) \<Rightarrow>
                    \<lparr> dispatch = d2, tracker = FixedRate FixedRateIdealStubTracker,
                      cb_receiver = [r0, r1, r2],
                      captured = [NotStarted, NotStarted, NotStarted],
                      delivered = [], timer_latency = lat, fired = 0 \<rparr>)))"





















section \<open>Properties of the stub trackers\<close>

subsection \<open>Arithmetic of the next multiple\<close>

lemma smod_nonneg: "0 \<le> a \<Longrightarrow> 0 < b \<Longrightarrow> (a::int) smod b = a mod b"
  by (simp add: smod_int_alt_def sgn_if)

lemma next_multiple_least:
  fixes n p m :: int
  assumes "0 < p" "n mod p \<noteq> 0" "p dvd m" "n \<le> m"
  shows "n - n mod p + p \<le> m"
proof -
  obtain k where k: "m = p * k" using assms(3) by (auto simp: dvd_def)
  have split: "n = p * (n div p) + n mod p" by simp
  have pos: "n mod p > 0" using assms(1,2)
    by (metis less_le pos_mod_sign)
  have "n div p < k"
  proof (rule ccontr)
    assume "\<not> n div p < k"
    then have "k \<le> n div p" by simp
    then have "p * k \<le> p * (n div p)" using assms(1) by simp
    also have "\<dots> < n" using pos split by linarith
    finally show False using k assms(4) by simp
  qed
  then have "n div p + 1 \<le> k" by simp
  then have "p * (n div p + 1) \<le> p * k" using assms(1) by (simp only: mult_le_cancel_left_pos)
  moreover have "n - n mod p + p = p * (n div p + 1)"
    by (simp add: algebra_simps minus_mod_eq_mult_div)
  ultimately show ?thesis using k by simp
qed

lemma next_multiple_dvd:
  fixes n p :: int
  shows "p dvd (n - n mod p + p)"
  by (simp add: minus_mod_eq_mult_div)

lemma next_multiple_ge:
  fixes n p :: int
  assumes "0 < p"
  shows "n \<le> n - n mod p + p"
  using pos_mod_bound [OF assms, of n] by linarith

subsection \<open>The value computed by each tracker\<close>

lemma fixed_next_value:
  assumes p: "0 < p" and t0: "0 \<le> t"
    and m: "p dvd m" "t \<le> m" "m \<le> INT64_MAX"
  shows "fixed_nextAnticipatedVSyncTimeFrom \<lparr> mPeriod = p \<rparr> t =
           Some (if t mod p = 0 then t else t - t mod p + p)"
proof -
  have r1: "rem64 t p = Some (t mod p)"
    using p t0 by (simp add: rem64_def smod_nonneg)
  show ?thesis
  proof (cases "t mod p = 0")
    case True
    then show ?thesis by (simp add: fixed_nextAnticipatedVSyncTimeFrom_def r1)
  next
    case False
    have le: "t - t mod p + p \<le> m"
      by (rule next_multiple_least [OF p False m(1) m(2)])
    have f0: "0 \<le> t mod p" "t mod p < p" "t mod p \<le> t"
      using p t0 by (simp_all add: zmod_le_nonneg_dividend)
    have s2: "sub64 t (t mod p) = Some (t - t mod p)"
      using f0 t0 m by (simp add: sub64_def int64_def INT64_MIN_def)
    have a1: "add64 (t - t mod p) p = Some (t - t mod p + p)"
      using f0 t0 le m(3) p by (simp add: add64_def int64_def INT64_MIN_def)
    show ?thesis using False
      by (simp add: fixed_nextAnticipatedVSyncTimeFrom_def r1 s2 a1)
  qed
qed

lemma vrr_next_value:
  assumes p: "0 < p" and bt: "b \<le> t" and bmin: "INT64_MIN \<le> b"
    and m: "p dvd (m - b)" "t \<le> m" "m \<le> INT64_MAX" "m - b \<le> INT64_MAX"
  shows "vrr_nextAnticipatedVSyncTimeFrom \<lparr> mPeriod = p, mBase = b \<rparr> t =
           Some (if (t - b) mod p = 0 then t else (t - b) - (t - b) mod p + p + b)"
proof -
  let ?n = "t - b"
  have n0: "0 \<le> ?n" using bt by simp
  have nm: "?n \<le> m - b" using m(2) by simp
  have s1: "sub64 t b = Some ?n"
    using n0 nm m(4) by (simp add: sub64_def int64_def INT64_MIN_def)
  have r1: "rem64 ?n p = Some (?n mod p)"
    using p n0 by (simp add: rem64_def smod_nonneg)
  show ?thesis
  proof (cases "?n mod p = 0")
    case True
    then show ?thesis by (simp add: vrr_nextAnticipatedVSyncTimeFrom_def s1 r1)
  next
    case False
    have le: "?n - ?n mod p + p \<le> m - b"
      by (rule next_multiple_least [OF p False m(1) nm])
    have f0: "0 \<le> ?n mod p" "?n mod p < p" "?n mod p \<le> ?n"
      using p n0 by (simp_all add: zmod_le_nonneg_dividend)
    have s2: "sub64 ?n (?n mod p) = Some (?n - ?n mod p)"
      using f0 n0 nm m(4) by (simp add: sub64_def int64_def INT64_MIN_def)
    have a1: "add64 (?n - ?n mod p) p = Some (?n - ?n mod p + p)"
      using f0 n0 le m(4) p by (simp add: add64_def int64_def INT64_MIN_def)
    have a2: "add64 (?n - ?n mod p + p) b = Some (?n - ?n mod p + p + b)"
      using f0 n0 le m(3) p bmin by (simp add: add64_def int64_def)
    show ?thesis using False
      by (simp add: vrr_nextAnticipatedVSyncTimeFrom_def s1 r1 s2 a1 a2)
  qed
qed

subsection \<open>The fixed-rate tracker returns the next pulse\<close>

text \<open>
  C5, as the code has it. For every reference time \<open>t \<ge> 0\<close> for which some multiple of
  the 3ms period at or after \<open>t\<close> is representable in \<open>nsecs_t\<close>,
  \<open>FixedRateIdealStubTracker::nextAnticipatedVSyncTimeFrom(t)\<close> returns a multiple of
  the period that is at least \<open>t\<close> and is the smallest such multiple; it returns \<open>t\<close>
  itself when \<open>t\<close> is a multiple of the period.
\<close>

theorem fixed_next_least:
  assumes t0: "0 \<le> t"
    and m: "\<exists>m. ms 3 dvd m \<and> t \<le> m \<and> m \<le> INT64_MAX"
  shows "\<exists>r. fixed_nextAnticipatedVSyncTimeFrom FixedRateIdealStubTracker t = Some r
            \<and> ms 3 dvd r \<and> t \<le> r
            \<and> (\<forall>q. ms 3 dvd q \<and> t \<le> q \<longrightarrow> r \<le> q)
            \<and> (ms 3 dvd t \<longrightarrow> r = t)"
proof -
  let ?p = "ms 3"
  have p: "0 < ?p" by (simp add: ms_def)
  obtain m where m': "?p dvd m" "t \<le> m" "m \<le> INT64_MAX"
    using m by blast
  let ?r = "if t mod ?p = 0 then t else t - t mod ?p + ?p"
  have v: "fixed_nextAnticipatedVSyncTimeFrom FixedRateIdealStubTracker t = Some ?r"
    unfolding FixedRateIdealStubTracker_def by (rule fixed_next_value [OF p t0 m'])
  have ge: "t \<le> ?r" using next_multiple_ge [OF p, of t] by simp
  have dv: "?p dvd ?r"
  proof (cases "t mod ?p = 0")
    case True then show ?thesis by (simp add: mod_eq_0_iff_dvd)
  next
    case False
    have e: "?r = t - t mod ?p + ?p" using False by simp
    show ?thesis unfolding e by (rule next_multiple_dvd)
  qed
  have least: "\<forall>q. ?p dvd q \<and> t \<le> q \<longrightarrow> ?r \<le> q"
  proof (intro allI impI)
    fix q assume q: "?p dvd q \<and> t \<le> q"
    show "?r \<le> q"
    proof (cases "t mod ?p = 0")
      case True then show ?thesis using q by simp
    next
      case False
      have "t - t mod ?p + ?p \<le> q"
        using next_multiple_least [OF p False, of q] q by simp
      then show ?thesis using False by simp
    qed
  qed
  have same: "?p dvd t \<longrightarrow> ?r = t" by (simp add: mod_eq_0_iff_dvd)
  show ?thesis using v ge dv least same by blast
qed

theorem fixed_next_least_witness:
  "(0::int) \<le> 4000000
   \<and> (\<exists>m. ms 3 dvd m \<and> 4000000 \<le> m \<and> m \<le> INT64_MAX)
   \<and> (\<exists>r. fixed_nextAnticipatedVSyncTimeFrom FixedRateIdealStubTracker 4000000 = Some r
          \<and> ms 3 dvd r \<and> 4000000 \<le> r
          \<and> (\<forall>q. ms 3 dvd q \<and> 4000000 \<le> q \<longrightarrow> r \<le> q)
          \<and> (ms 3 dvd 4000000 \<longrightarrow> r = 4000000))"
proof -
  have h1: "(0::int) \<le> 4000000" by simp
  have h2: "\<exists>m. ms 3 dvd m \<and> 4000000 \<le> m \<and> m \<le> INT64_MAX"
    by (rule exI [of _ 6000000]) (simp add: ms_def INT64_MAX_def)
  show ?thesis using h1 h2 fixed_next_least [OF h1 h2] by blast
qed

text \<open>
  The claim as written ranges over every reference time. A negative time that is not a
  multiple of the period has a negative C++ remainder, so the tracker skips the multiple
  0 and returns 3ms; and near the top of the range the sum overflows.
\<close>

theorem fixed_next_least_counterexample:
  "fixed_nextAnticipatedVSyncTimeFrom FixedRateIdealStubTracker (- 1) = Some 3000000
   \<and> ms 3 dvd 0 \<and> (- 1 :: int) \<le> 0 \<and> (0 :: int) < 3000000
   \<and> fixed_nextAnticipatedVSyncTimeFrom FixedRateIdealStubTracker INT64_MAX = None"
  by (simp add: fixed_nextAnticipatedVSyncTimeFrom_def FixedRateIdealStubTracker_def ms_def
      rem64_def sub64_def add64_def int64_def INT64_MIN_def INT64_MAX_def smod_int_alt_def)

subsection \<open>The variable-rate tracker returns the next pulse of the installed grid\<close>

text \<open>
  C6, as the code has it. For every period \<open>p > 0\<close> and base \<open>b\<close> installed with
  \<open>set_interval(p, b)\<close> on a tracker in any earlier state, and every reference time
  \<open>t \<ge> b\<close> for which some pulse \<open>m \<ge> t\<close> of the grid has \<open>m\<close> and \<open>m - b\<close>
  representable, \<open>VRRStubTracker::nextAnticipatedVSyncTimeFrom(t)\<close> returns the least
  \<open>r \<ge> t\<close> congruent to \<open>b\<close> modulo \<open>p\<close>, and \<open>r = t\<close> when \<open>t - b\<close> is a multiple
  of \<open>p\<close>.
\<close>

theorem vrr_next_least:
  assumes p: "0 < p" and bt: "b \<le> t" and bmin: "INT64_MIN \<le> b"
    and m: "\<exists>m. p dvd (m - b) \<and> t \<le> m \<and> m \<le> INT64_MAX \<and> m - b \<le> INT64_MAX"
  shows "\<exists>r. vrr_nextAnticipatedVSyncTimeFrom (set_interval p b tr) t = Some r
            \<and> t \<le> r \<and> p dvd (r - b)
            \<and> (\<forall>q. p dvd (q - b) \<and> t \<le> q \<longrightarrow> r \<le> q)
            \<and> (p dvd (t - b) \<longrightarrow> r = t)"
proof -
  obtain m where m': "p dvd (m - b)" "t \<le> m" "m \<le> INT64_MAX" "m - b \<le> INT64_MAX"
    using m by blast
  have tr: "set_interval p b tr = \<lparr> mPeriod = p, mBase = b \<rparr>"
    by (simp add: set_interval_def)
  let ?n = "t - b"
  let ?r = "if ?n mod p = 0 then t else ?n - ?n mod p + p + b"
  have v: "vrr_nextAnticipatedVSyncTimeFrom (set_interval p b tr) t = Some ?r"
    unfolding tr by (rule vrr_next_value [OF p bt bmin m'])
  have ge: "t \<le> ?r" using next_multiple_ge [OF p, of ?n] by simp
  have dv: "p dvd (?r - b)"
  proof (cases "?n mod p = 0")
    case True then show ?thesis by (simp add: mod_eq_0_iff_dvd)
  next
    case False
    have e: "?r - b = ?n - ?n mod p + p" using False by simp
    show ?thesis unfolding e by (rule next_multiple_dvd)
  qed
  have least: "\<forall>q. p dvd (q - b) \<and> t \<le> q \<longrightarrow> ?r \<le> q"
  proof (intro allI impI)
    fix q assume q: "p dvd (q - b) \<and> t \<le> q"
    show "?r \<le> q"
    proof (cases "?n mod p = 0")
      case True then show ?thesis using q by simp
    next
      case False
      have "?n - ?n mod p + p \<le> q - b"
        using next_multiple_least [OF p False, of "q - b"] q by simp
      then show ?thesis using False by simp
    qed
  qed
  have same: "p dvd (t - b) \<longrightarrow> ?r = t" by (simp add: mod_eq_0_iff_dvd)
  show ?thesis using v ge dv least same by blast
qed

theorem vrr_next_least_witness:
  "(0::int) < ms 4 \<and> ms 9 \<le> ms 15 \<and> INT64_MIN \<le> ms 9
   \<and> (\<exists>m. ms 4 dvd (m - ms 9) \<and> ms 15 \<le> m \<and> m \<le> INT64_MAX \<and> m - ms 9 \<le> INT64_MAX)
   \<and> (\<exists>r. vrr_nextAnticipatedVSyncTimeFrom
            (set_interval (ms 4) (ms 9) (new_VRRStubTracker (ms 3))) (ms 15) = Some r
          \<and> ms 15 \<le> r \<and> ms 4 dvd (r - ms 9)
          \<and> (\<forall>q. ms 4 dvd (q - ms 9) \<and> ms 15 \<le> q \<longrightarrow> r \<le> q)
          \<and> (ms 4 dvd (ms 15 - ms 9) \<longrightarrow> r = ms 15))"
proof -
  have h1: "(0::int) < ms 4" by (simp add: ms_def)
  have h2: "ms 9 \<le> ms 15" by (simp add: ms_def)
  have h3: "INT64_MIN \<le> ms 9" by (simp add: ms_def INT64_MIN_def)
  have h4: "\<exists>m. ms 4 dvd (m - ms 9) \<and> ms 15 \<le> m \<and> m \<le> INT64_MAX \<and> m - ms 9 \<le> INT64_MAX"
    by (rule exI [of _ 17000000]) (simp add: ms_def INT64_MAX_def)
  show ?thesis
    using h1 h2 h3 h4 vrr_next_least [OF h1 h2 h3 h4, of "new_VRRStubTracker (ms 3)"] by blast
qed

text \<open>
  The claim as written ranges over every reference time. For a reference time one
  nanosecond before the base the C++ remainder is negative: with period 3ms and base 10
  the tracker answers 3000010 at time 9, although the pulse 10 is at or after 9. With
  base 0 the reference time \<open>INT64_MAX\<close> has no answer at all (signed overflow).
\<close>

theorem vrr_next_least_counterexample:
  "vrr_nextAnticipatedVSyncTimeFrom (set_interval (ms 3) 10 (new_VRRStubTracker (ms 3))) 9
     = Some 3000010
   \<and> ms 3 dvd (10 - 10) \<and> (9 :: int) \<le> 10 \<and> (10 :: int) < 3000010
   \<and> vrr_nextAnticipatedVSyncTimeFrom (set_interval (ms 3) 0 (new_VRRStubTracker (ms 3)))
        INT64_MAX = None"
  by (simp add: vrr_nextAnticipatedVSyncTimeFrom_def set_interval_def new_VRRStubTracker_def
      ms_def rem64_def sub64_def add64_def int64_def INT64_MIN_def INT64_MAX_def
      smod_int_alt_def)

section \<open>Properties of SensorManager.cpp\<close>

subsection \<open>waitForSensorService gives up after 60 attempts\<close>

lemma wait_from_attempts:
  "i \<le> 60 \<Longrightarrow> snd (snd (waitForSensorService_from i g server)) \<le> 60"
proof (induction i g server rule: waitForSensorService_from.induct)
  case (1 i g server)
  show ?case
  proof (cases "i < 60")
    case False
    with 1(2) show ?thesis by simp
  next
    case True
    obtain err s where gi: "g i = (err, s)" by (cases "g i")
    show ?thesis
    proof (cases "err = NAME_NOT_FOUND")
      case True
      with 1(1)[OF \<open>i < 60\<close> gi[symmetric]] \<open>i < 60\<close> gi show ?thesis by simp
    next
      case False
      with \<open>i < 60\<close> gi show ?thesis by (cases err) simp_all
    qed
  qed
qed

lemma wait_from_skip:
  "i \<le> k \<Longrightarrow> k \<le> 60 \<Longrightarrow> (\<forall>j. i \<le> j \<and> j < k \<longrightarrow> fst (g j) = NAME_NOT_FOUND) \<Longrightarrow>
   waitForSensorService_from i g server = waitForSensorService_from k g server"
proof (induction "k - i" arbitrary: i)
  case 0
  then show ?case by simp
next
  case (Suc d)
  then have lt: "i < k" "i < 60" by simp_all
  obtain s where gi: "g i = (NAME_NOT_FOUND, s)"
    using Suc.prems(3) lt by (cases "g i") auto
  have "waitForSensorService_from i g server = waitForSensorService_from (i + 1) g server"
    using lt gi by simp
  also have "\<dots> = waitForSensorService_from k g server"
    using Suc.hyps(1)[of "i + 1"] Suc.hyps(2) Suc.prems lt by simp
  finally show ?case .
qed

text \<open>
  C10. \<open>waitForSensorService\<close> is a total function, and it makes at most 60
  \<open>getService\<close> attempts. If attempt \<open>k\<close> is the first that does not report
  \<open>NAME_NOT_FOUND\<close>: when it reports \<open>NO_ERROR\<close> the call returns \<open>NO_ERROR\<close> after
  exactly \<open>k + 1\<close> attempts and stores the connection through a non-null out-parameter;
  when it reports any other error the call returns that error after exactly \<open>k + 1\<close>
  attempts and leaves the out-parameter alone. If all 60 attempts report
  \<open>NAME_NOT_FOUND\<close> the call returns \<open>TIMED_OUT\<close>.
\<close>

theorem waitForSensorService_attempts:
  "\<exists>st out n. waitForSensorService getService server = (st, out, n)
      \<and> n \<le> 60
      \<and> (\<forall>k s. k < 60 \<and> (\<forall>j<k. fst (getService j) = NAME_NOT_FOUND)
             \<and> getService k = (NO_ERROR, s)
           \<longrightarrow> st = NO_ERROR \<and> n = k + 1
               \<and> out = (if server \<noteq> None then Some s else None))
      \<and> (\<forall>k err s. k < 60 \<and> (\<forall>j<k. fst (getService j) = NAME_NOT_FOUND)
             \<and> getService k = (err, s) \<and> err \<noteq> NAME_NOT_FOUND \<and> err \<noteq> NO_ERROR
           \<longrightarrow> st = err \<and> n = k + 1 \<and> out = server)
      \<and> ((\<forall>j<60. fst (getService j) = NAME_NOT_FOUND)
           \<longrightarrow> st = TIMED_OUT \<and> n = 60 \<and> out = server)"
proof -
  obtain st out n where w: "waitForSensorService getService server = (st, out, n)"
    by (cases "waitForSensorService getService server")
  have skip: "waitForSensorService getService server = waitForSensorService_from k getService server"
    if "k \<le> 60" "\<forall>j<k. fst (getService j) = NAME_NOT_FOUND" for k
    unfolding waitForSensorService_def
    using wait_from_skip [of 0 k getService server] that by simp
  have a: "n \<le> 60"
    using wait_from_attempts [of 0 getService server] w
    by (simp add: waitForSensorService_def)
  have b: "st = NO_ERROR \<and> n = k + 1 \<and> out = (if server \<noteq> None then Some s else None)"
    if "k < 60 \<and> (\<forall>j<k. fst (getService j) = NAME_NOT_FOUND) \<and> getService k = (NO_ERROR, s)"
    for k s
    using skip [of k] that w by auto
  have c: "st = err \<and> n = k + 1 \<and> out = server"
    if "k < 60 \<and> (\<forall>j<k. fst (getService j) = NAME_NOT_FOUND) \<and> getService k = (err, s)
        \<and> err \<noteq> NAME_NOT_FOUND \<and> err \<noteq> NO_ERROR" for k err s
    using skip [of k] that w by (cases err) auto
  have d: "st = TIMED_OUT \<and> n = 60 \<and> out = server"
    if "\<forall>j<60. fst (getService j) = NAME_NOT_FOUND"
    using skip [of 60] that w by simp
  show ?thesis
    using w a b c d by blast
qed

theorem waitForSensorService_attempts_witness:
  "waitForSensorService (\<lambda>i. if i < 2 then (NAME_NOT_FOUND, None) else (NO_ERROR, Some 7))
     (Some None) = (NO_ERROR, Some (Some 7), 3)
   \<and> waitForSensorService (\<lambda>i. if i < 1 then (NAME_NOT_FOUND, None) else (NO_MEMORY, None))
       (Some None) = (NO_MEMORY, Some None, 2)
   \<and> waitForSensorService (\<lambda>i. (NAME_NOT_FOUND, None)) None = (TIMED_OUT, None, 60)"
proof -
  let ?g1 = "\<lambda>i::nat. if i < 2 then (NAME_NOT_FOUND, None) else (NO_ERROR, Some (7::nat))"
  let ?g2 = "\<lambda>i::nat. if i < 1 then (NAME_NOT_FOUND, None::sp) else (NO_MEMORY, None)"
  let ?g3 = "\<lambda>i::nat. (NAME_NOT_FOUND, None::sp)"
  have h1: "(2::nat) < 60 \<and> (\<forall>j<2. fst (?g1 j) = NAME_NOT_FOUND) \<and> ?g1 2 = (NO_ERROR, Some 7)"
    by simp
  have h2: "(1::nat) < 60 \<and> (\<forall>j<1. fst (?g2 j) = NAME_NOT_FOUND) \<and> ?g2 1 = (NO_MEMORY, None)
            \<and> NO_MEMORY \<noteq> NAME_NOT_FOUND \<and> NO_MEMORY \<noteq> NO_ERROR"
    by simp
  have h3: "\<forall>j<60. fst (?g3 j) = NAME_NOT_FOUND"
    by simp
  have r1: "waitForSensorService ?g1 (Some None) = (NO_ERROR, Some (Some 7), 3)"
  proof -
    from waitForSensorService_attempts [of ?g1 "Some None"]
    obtain st out n where w: "waitForSensorService ?g1 (Some None) = (st, out, n)"
      and A: "\<forall>k s. k < 60 \<and> (\<forall>j<k. fst (?g1 j) = NAME_NOT_FOUND) \<and> ?g1 k = (NO_ERROR, s)
                \<longrightarrow> st = NO_ERROR \<and> n = k + 1
                    \<and> out = (if Some None \<noteq> (None :: sp option) then Some s else None)"
      by blast
    from A h1 have "st = NO_ERROR \<and> n = 2 + 1
        \<and> out = (if Some None \<noteq> (None :: sp option) then Some (Some 7) else None)"
      by blast
    with w show ?thesis by simp
  qed
  have r2: "waitForSensorService ?g2 (Some None) = (NO_MEMORY, Some None, 2)"
  proof -
    from waitForSensorService_attempts [of ?g2 "Some None"]
    obtain st out n where w: "waitForSensorService ?g2 (Some None) = (st, out, n)"
      and A: "\<forall>k err s. k < 60 \<and> (\<forall>j<k. fst (?g2 j) = NAME_NOT_FOUND) \<and> ?g2 k = (err, s)
                  \<and> err \<noteq> NAME_NOT_FOUND \<and> err \<noteq> NO_ERROR
                \<longrightarrow> st = err \<and> n = k + 1 \<and> out = Some None"
      by blast
    from A h2 have "st = NO_MEMORY \<and> n = 1 + 1 \<and> out = Some None"
      by blast
    with w show ?thesis by simp
  qed
  have r3: "waitForSensorService ?g3 None = (TIMED_OUT, None, 60)"
  proof -
    from waitForSensorService_attempts [of ?g3 None]
    obtain st out n where w: "waitForSensorService ?g3 None = (st, out, n)"
      and A: "(\<forall>j<60. fst (?g3 j) = NAME_NOT_FOUND) \<longrightarrow> st = TIMED_OUT \<and> n = 60 \<and> out = None"
      by (elim exE conjE)
    from A h3 have "st = TIMED_OUT \<and> n = 60 \<and> out = None"
      by (rule mp)
    with w show ?thesis by simp
  qed
  show ?thesis using r1 r2 r3 by simp
qed

subsection \<open>Sensor names are looked up once and then remembered\<close>

lemma findSensorNameInList_find:
  "findSensorNameInList h xs (Some out) =
     (case find (\<lambda>s. mHandle s = h) xs of
        None \<Rightarrow> (False, Some out)
      | Some s \<Rightarrow> (True, Some (mStringType s @ '':'' @ mName s)))"
  by (induction xs) simp_all

lemma find_append_first:
  "find P (xs @ ys) = (case find P xs of None \<Rightarrow> find P ys | Some x \<Rightarrow> Some x)"
  by (induction xs) simp_all

lemma find_None_set: "find P xs = None \<longleftrightarrow> (\<forall>x\<in>set xs. \<not> P x)"
  by (induction xs) simp_all

lemma getSensorNameByHandle_miss:
  "mSensorHandleToName m h = None \<Longrightarrow>
   fst (getSensorNameByHandle h m) =
     map_option (\<lambda>s. mStringType s @ '':'' @ mName s)
       (find (\<lambda>s. mHandle s = h) (mSensors m @ mDynamicSensors m))"
  by (simp add: getSensorNameByHandle_def findSensorNameInList_find find_append_first
      split: option.splits)

lemma getSensorNameByHandle_hit:
  "mSensorHandleToName m h = Some n \<Longrightarrow> getSensorNameByHandle h m = (Some n, m)"
  by (simp add: getSensorNameByHandle_def)

lemma getSensorNameByHandle_cached:
  "fst (getSensorNameByHandle h m) = Some n \<Longrightarrow>
   mSensorHandleToName (snd (getSensorNameByHandle h m)) h = Some n"
  by (auto simp: getSensorNameByHandle_def findSensorNameInList_find
      split: option.splits if_splits)

lemma getSensorNameByHandle_keeps:
  "mSensorHandleToName m h = Some n \<Longrightarrow>
   mSensorHandleToName (snd (getSensorNameByHandle h' m)) h = Some n"
  by (auto simp: getSensorNameByHandle_def findSensorNameInList_find
      split: option.splits if_splits)

lemma assertStateLocked_keeps:
  "assertStateLocked f env m = Inr (err, m', links) \<Longrightarrow>
   mSensorHandleToName m' = mSensorHandleToName m"
  by (auto simp: assertStateLocked_def Let_def split: if_splits prod.splits option.splits)

lemma manager_step_keeps:
  "mSensorHandleToName m h = Some n \<Longrightarrow> manager_step f c m = Some m' \<Longrightarrow>
   mSensorHandleToName m' h = Some n"
proof (cases c)
  case (GetSensorNameByHandle h')
  assume "mSensorHandleToName m h = Some n" "manager_step f c m = Some m'"
  then show ?thesis using GetSensorNameByHandle by (auto simp: getSensorNameByHandle_keeps)
next
  case SensorManagerDied
  assume "mSensorHandleToName m h = Some n" "manager_step f c m = Some m'"
  then show ?thesis using SensorManagerDied by (auto simp: sensorManagerDied_def)
next
  case (AssertStateLocked env)
  assume "mSensorHandleToName m h = Some n" "manager_step f c m = Some m'"
  then show ?thesis using AssertStateLocked
    by (auto split: sum.splits dest: assertStateLocked_keeps)
next
  case (GetDynamicSensorList env)
  assume "mSensorHandleToName m h = Some n" "manager_step f c m = Some m'"
  then show ?thesis using GetDynamicSensorList
    by (auto simp: getDynamicSensorList_def Let_def assertStateLocked_keeps
        split: sum.splits if_splits)
qed

lemma manager_run_keeps:
  "mSensorHandleToName m h = Some n \<Longrightarrow> manager_run f cs m = Some m' \<Longrightarrow>
   mSensorHandleToName m' h = Some n"
proof (induction cs arbitrary: m)
  case Nil
  then show ?case by simp
next
  case (Cons c cs)
  then show ?case
    by (auto split: option.splits dest: manager_step_keeps)
qed

text \<open>
  C9. \<open>getSensorNameByHandle(handle)\<close> returns a name exactly when the handle is in the
  name cache or some sensor of the static or dynamic list has it. On a cache miss the
  name is \<open>stringType:name\<close> of the first sensor with the handle, the static list
  searched before the dynamic one; on a hit it is the cached string. Once a lookup has
  returned a name, every later lookup of the handle returns the same string, whatever
  calls ran on the manager in between: other lookups, the death of the service,
  re-initialisation with other sensor lists, a refresh of the dynamic list.
\<close>

theorem getSensorNameByHandle_memoized:
  "(fst (getSensorNameByHandle h m) \<noteq> None \<longleftrightarrow>
      (mSensorHandleToName m h \<noteq> None
       \<or> (\<exists>s \<in> set (mSensors m @ mDynamicSensors m). mHandle s = h)))
   \<and> (mSensorHandleToName m h = None \<longrightarrow>
        fst (getSensorNameByHandle h m) =
          map_option (\<lambda>s. mStringType s @ '':'' @ mName s)
            (find (\<lambda>s. mHandle s = h) (mSensors m @ mDynamicSensors m)))
   \<and> (\<forall>n. mSensorHandleToName m h = Some n \<longrightarrow> fst (getSensorNameByHandle h m) = Some n)
   \<and> (\<forall>n calls m'. fst (getSensorNameByHandle h m) = Some n
         \<and> manager_run ping_flag calls (snd (getSensorNameByHandle h m)) = Some m'
        \<longrightarrow> fst (getSensorNameByHandle h m') = Some n)"
proof (intro conjI allI impI)
  show "fst (getSensorNameByHandle h m) \<noteq> None \<longleftrightarrow>
      (mSensorHandleToName m h \<noteq> None
       \<or> (\<exists>s \<in> set (mSensors m @ mDynamicSensors m). mHandle s = h))"
  proof (cases "mSensorHandleToName m h")
    case None
    show ?thesis
      using getSensorNameByHandle_miss [OF None] None
        find_None_set [of "\<lambda>s. mHandle s = h" "mSensors m @ mDynamicSensors m"]
      by auto
  next
    case (Some n)
    then show ?thesis by (simp add: getSensorNameByHandle_hit)
  qed
next
  assume "mSensorHandleToName m h = None"
  then show "fst (getSensorNameByHandle h m) =
          map_option (\<lambda>s. mStringType s @ '':'' @ mName s)
            (find (\<lambda>s. mHandle s = h) (mSensors m @ mDynamicSensors m))"
    by (rule getSensorNameByHandle_miss)
next
  fix n assume "mSensorHandleToName m h = Some n"
  then show "fst (getSensorNameByHandle h m) = Some n"
    by (simp add: getSensorNameByHandle_hit)
next
  fix n calls m'
  assume a: "fst (getSensorNameByHandle h m) = Some n
         \<and> manager_run ping_flag calls (snd (getSensorNameByHandle h m)) = Some m'"
  have "mSensorHandleToName (snd (getSensorNameByHandle h m)) h = Some n"
    using a by (simp add: getSensorNameByHandle_cached)
  then have "mSensorHandleToName m' h = Some n"
    using a manager_run_keeps by blast
  then show "fst (getSensorNameByHandle h m') = Some n"
    by (simp add: getSensorNameByHandle_hit)
qed

theorem getSensorNameByHandle_memoized_witness:
  "fst (getSensorNameByHandle 1
      ((SensorManager_fields ''pkg'' 0)
         \<lparr> mSensors := [\<lparr> mHandle = 1, mStringType = ''accel'', mName = ''acc0'',
                          mType = 1, mWakeUp = False \<rparr>] \<rparr>)) = Some ''accel:acc0''
   \<and> fst (getSensorNameByHandle 1
        (sensorManagerDied (snd (getSensorNameByHandle 1
          ((SensorManager_fields ''pkg'' 0)
             \<lparr> mSensors := [\<lparr> mHandle = 1, mStringType = ''accel'', mName = ''acc0'',
                              mType = 1, mWakeUp = False \<rparr>] \<rparr>))))) = Some ''accel:acc0''"
proof -
  let ?m = "(SensorManager_fields ''pkg'' 0)
         \<lparr> mSensors := [\<lparr> mHandle = 1, mStringType = ''accel'', mName = ''acc0'',
                          mType = 1, mWakeUp = False \<rparr>] \<rparr>"
  note T = getSensorNameByHandle_memoized [of 1 ?m True]
  have miss: "mSensorHandleToName ?m 1 = None"
    by (simp add: SensorManager_fields_def)
  have r1: "fst (getSensorNameByHandle 1 ?m) = Some ''accel:acc0''"
    using T miss by (simp add: SensorManager_fields_def)
  have run: "manager_run True [SensorManagerDied] (snd (getSensorNameByHandle 1 ?m))
               = Some (sensorManagerDied (snd (getSensorNameByHandle 1 ?m)))"
    by simp
  have r2: "fst (getSensorNameByHandle 1 (sensorManagerDied (snd (getSensorNameByHandle 1 ?m))))
               = Some ''accel:acc0''"
    using T r1 run by blast
  show ?thesis using r1 r2 by simp
qed

subsection \<open>Death of the sensor service and recovery\<close>

lemma assertStateLocked_null_server:
  assumes "mSensorServer m = None"
  shows "assertStateLocked f env m =
     (case fst (snd (waitForSensorService (getService_reply env) (Some None))) of
        Some (Some srv) \<Rightarrow>
          Inr (NO_ERROR,
               m\<lparr> mSensorServer := Some srv,
                  mDeathObserver := Some (new_DeathObserver env),
                  mSensors := (if mDeviceId m = DEVICE_ID_DEFAULT
                               then getSensorList_reply env (mOpPackageName m)
                               else getRuntimeSensorList_reply env (mOpPackageName m) (mDeviceId m)),
                  mSensorList := Some [0 ..< length (if mDeviceId m = DEVICE_ID_DEFAULT
                               then getSensorList_reply env (mOpPackageName m)
                               else getRuntimeSensorList_reply env (mOpPackageName m) (mDeviceId m))] \<rparr>,
               [(srv, new_DeathObserver env)])
      | _ \<Rightarrow> Inl Fatal)"
  using assms
  by (auto simp: assertStateLocked_def initSensorManager_needed_def Let_def
      split: prod.splits option.splits)

text \<open>
  C8, as the code has it. \<open>sensorManagerDied\<close> resets the server handle, the static
  sensor list and vector and the dynamic sensor list and vector. The next
  \<open>assertStateLocked\<close> then runs \<open>waitForSensorService\<close>: if that yields a connection
  \<open>srv\<close>, the call registers a new death observer on \<open>srv\<close>, takes the sensor vector
  from the service (by device id) and rebuilds the pointer list, and the manager equals a
  freshly constructed manager for the same package and device except that the
  direct-channel table, its handle counter and the handle-to-name cache keep the values
  they had before the death. If no connection is obtained the process aborts.
\<close>

theorem sensorManagerDied_then_assertStateLocked:
  "mSensorServer (sensorManagerDied m) = None
   \<and> mSensorList (sensorManagerDied m) = None
   \<and> mSensors (sensorManagerDied m) = []
   \<and> mDynamicSensorList (sensorManagerDied m) = None
   \<and> mDynamicSensors (sensorManagerDied m) = []
   \<and> (\<forall>srv. fst (snd (waitForSensorService (getService_reply env) (Some None))) = Some (Some srv)
        \<longrightarrow> (\<exists>m' fresh.
               assertStateLocked ping_flag env (sensorManagerDied m)
                 = Inr (NO_ERROR, m', [(srv, new_DeathObserver env)])
               \<and> new_SensorManager ping_flag env (mOpPackageName m) (mDeviceId m) = Inr fresh
               \<and> mSensorServer m' = Some srv
               \<and> mDeathObserver m' = Some (new_DeathObserver env)
               \<and> mSensors m' =
                   (if mDeviceId m = DEVICE_ID_DEFAULT
                    then getSensorList_reply env (mOpPackageName m)
                    else getRuntimeSensorList_reply env (mOpPackageName m) (mDeviceId m))
               \<and> mSensorList m' = Some [0 ..< length (mSensors m')]
               \<and> m' = fresh\<lparr> mDirectConnection := mDirectConnection m,
                              mDirectConnectionHandle := mDirectConnectionHandle m,
                              mSensorHandleToName := mSensorHandleToName m \<rparr>))
   \<and> ((\<forall>srv. fst (snd (waitForSensorService (getService_reply env) (Some None)))
               \<noteq> Some (Some srv))
        \<longrightarrow> assertStateLocked ping_flag env (sensorManagerDied m) = Inl Fatal)"
proof -
  let ?d = "sensorManagerDied m"
  let ?w = "fst (snd (waitForSensorService (getService_reply env) (Some None)))"
  have null: "mSensorServer ?d = None" by (simp add: sensorManagerDied_def)
  have cleared: "mSensorList ?d = None \<and> mSensors ?d = [] \<and> mDynamicSensorList ?d = None
                 \<and> mDynamicSensors ?d = []"
    by (simp add: sensorManagerDied_def)
  have null0: "mSensorServer (SensorManager_fields (mOpPackageName m) (mDeviceId m)) = None"
    by (simp add: SensorManager_fields_def)
  note A = assertStateLocked_null_server [OF null, of ping_flag env]
  note B = assertStateLocked_null_server [OF null0, of ping_flag env]
  have ok: "\<exists>m' fresh.
               assertStateLocked ping_flag env ?d = Inr (NO_ERROR, m', [(srv, new_DeathObserver env)])
               \<and> new_SensorManager ping_flag env (mOpPackageName m) (mDeviceId m) = Inr fresh
               \<and> mSensorServer m' = Some srv
               \<and> mDeathObserver m' = Some (new_DeathObserver env)
               \<and> mSensors m' =
                   (if mDeviceId m = DEVICE_ID_DEFAULT
                    then getSensorList_reply env (mOpPackageName m)
                    else getRuntimeSensorList_reply env (mOpPackageName m) (mDeviceId m))
               \<and> mSensorList m' = Some [0 ..< length (mSensors m')]
               \<and> m' = fresh\<lparr> mDirectConnection := mDirectConnection m,
                              mDirectConnectionHandle := mDirectConnectionHandle m,
                              mSensorHandleToName := mSensorHandleToName m \<rparr>"
    if w: "?w = Some (Some srv)" for srv
    unfolding A new_SensorManager_def B w
    by (simp add: sensorManagerDied_def SensorManager_fields_def)
  have bad: "assertStateLocked ping_flag env ?d = Inl Fatal"
    if "\<forall>srv. ?w \<noteq> Some (Some srv)"
    unfolding A using that by (auto split: option.splits)
  show ?thesis using null cleared ok bad by blast
qed

theorem sensorManagerDied_then_assertStateLocked_witness:
  "fst (snd (waitForSensorService (getService_reply (service_up 8 [])) (Some None)))
     = Some (Some 8)
   \<and> assertStateLocked True (service_up 8 []) (sensorManagerDied manager_in_use)
     = Inr (NO_ERROR,
            (fresh_manager 8 [])
              \<lparr> mDirectConnection := [1 \<mapsto> 3], mDirectConnectionHandle := 2,
                mSensorHandleToName := [1 \<mapsto> ''accel:acc0''] \<rparr>,
            [(8, 0)])"
proof -
  let ?env = "service_up 8 []"
  have h: "fst (snd (waitForSensorService (getService_reply ?env) (Some None))) = Some (Some 8)"
    by (simp add: service_up_def waitForSensorService_def)
  have fresh: "new_SensorManager True ?env (mOpPackageName manager_in_use)
                 (mDeviceId manager_in_use) = Inr (fresh_manager 8 [])"
    by (simp add: new_SensorManager_def fresh_manager_def manager_in_use_def
        assertStateLocked_def initSensorManager_needed_def SensorManager_fields_def
        service_up_def waitForSensorService_def DEVICE_ID_DEFAULT_def Let_def)
  from sensorManagerDied_then_assertStateLocked [of manager_in_use ?env True] h
  obtain m' fr where
    a: "assertStateLocked True ?env (sensorManagerDied manager_in_use)
          = Inr (NO_ERROR, m', [(8, new_DeathObserver ?env)])"
    and f: "new_SensorManager True ?env (mOpPackageName manager_in_use)
              (mDeviceId manager_in_use) = Inr fr"
    and e: "m' = fr\<lparr> mDirectConnection := mDirectConnection manager_in_use,
                       mDirectConnectionHandle := mDirectConnectionHandle manager_in_use,
                       mSensorHandleToName := mSensorHandleToName manager_in_use \<rparr>"
    by blast
  have fr: "fr = fresh_manager 8 []" using f fresh by simp
  have obs: "new_DeathObserver ?env = 0" by (simp add: service_up_def)
  show ?thesis
    using h a unfolding e fr obs by (simp add: manager_in_use_def)
qed

text \<open>
  The claim as written ends with "operations after a death behave as on a freshly
  constructed manager". A manager that opened a direct channel and looked up the name of
  handle 1 before the death differs from a fresh one afterwards: \<open>createDirectChannel\<close>
  hands out handle 2 where a fresh manager hands out 1, and \<open>getSensorNameByHandle(1)\<close>
  still answers the cached name although the restarted service reports no sensor, where
  a fresh manager answers nothing.
\<close>

theorem sensorManagerDied_not_fresh_counterexample:
  "new_SensorManager True (service_up 7 [accel_sensor]) ''pkg'' 0
     = Inr (fresh_manager 7 [accel_sensor])
   \<and> createDirectChannel True (service_up 7 [accel_sensor]) True (Some 3)
       (fresh_manager 7 [accel_sensor])
     = Inr (Inr 1, (fresh_manager 7 [accel_sensor])
                     \<lparr> mDirectConnection := [1 \<mapsto> 3], mDirectConnectionHandle := 2 \<rparr>)
   \<and> getSensorNameByHandle 1
       ((fresh_manager 7 [accel_sensor])
          \<lparr> mDirectConnection := [1 \<mapsto> 3], mDirectConnectionHandle := 2 \<rparr>)
     = (Some ''accel:acc0'', manager_in_use)
   \<and> map_sum id fst
       (createDirectChannel True (service_up 8 []) True (Some 4)
          (sensorManagerDied manager_in_use)) = Inr (Inr 2)
   \<and> new_SensorManager True (service_up 8 []) ''pkg'' 0 = Inr (fresh_manager 8 [])
   \<and> map_sum id fst
       (createDirectChannel True (service_up 8 []) True (Some 4) (fresh_manager 8 []))
     = Inr (Inr 1)
   \<and> map_sum id (\<lambda>(err, m, links). fst (getSensorNameByHandle 1 m))
       (assertStateLocked True (service_up 8 []) (sensorManagerDied manager_in_use))
     = Inr (Some ''accel:acc0'')
   \<and> fst (getSensorNameByHandle 1 (fresh_manager 8 [])) = None"
  by (simp add: new_SensorManager_def fresh_manager_def manager_in_use_def
      createDirectChannel_def assertStateLocked_def initSensorManager_needed_def
      sensorManagerDied_def getSensorNameByHandle_def accel_sensor_def
      SensorManager_fields_def service_up_def waitForSensorService_def
      DEVICE_ID_DEFAULT_def INT32_MAX_def Let_def)


subsection \<open>The per-package registry keeps a stale entry\<close>

lemma new_SensorManager_service_up:
  "new_SensorManager f (service_up srv ss) p d =
   Inr ((SensorManager_fields p d)\<lparr> mSensorServer := Some srv, mDeathObserver := Some 0,
         mSensors := ss, mSensorList := Some [0 ..< length ss] \<rparr>)"
  by (simp add: new_SensorManager_def assertStateLocked_def initSensorManager_needed_def
      SensorManager_fields_def service_up_def waitForSensorService_def Let_def)

lemma getInstanceForPackage_cached:
  assumes "sPackageInstances r packageName = Some a" "heap r a = Some m"
    and "mDeviceId m = getDeviceIdForUid (virtualdevice_native env) (callingUid env)"
  shows "getInstanceForPackage ping_flag env packageName r = Inr (a, r)"
  using assms by (simp add: getInstanceForPackage_def)

text \<open>
  C7 fails on the code. The first call for package \<open>a\<close> comes from the default device
  and stores manager 0. The second call for \<open>a\<close> comes from virtual device 5: the
  cached manager has another device id, so a manager 1 is created, but
  \<open>std::map::insert\<close> does not replace the entry of \<open>a\<close>, which still names manager 0.
  The third call, again for \<open>a\<close> from device 5, therefore finds manager 0 once more and
  creates manager 2: two successive calls with the same package name and the same device
  association return different instances, neither of them the one in the registry.
\<close>

theorem getInstanceForPackage_stale_entry:
  "(case getInstance_calls True
           [(caller_on_default_device, ''a''),
            (caller_on_virtual_device 5, ''a''),
            (caller_on_virtual_device 5, ''a'')] empty_registry of
      Inl f \<Rightarrow> False
    | Inr (addrs, r) \<Rightarrow>
        addrs = [0, 1, 2]
        \<and> sPackageInstances r ''a'' = Some 0
        \<and> map_option mDeviceId (heap r 0) = Some 0
        \<and> map_option mDeviceId (heap r 1) = Some 5
        \<and> map_option mDeviceId (heap r 2) = Some 5)"
  by (simp add: getInstanceForPackage_def create_and_stash_def caller_on_default_device_def
      caller_on_virtual_device_def empty_registry_def new_SensorManager_service_up
      resolve_opPackageName_def map_insert_def getDeviceIdForUid_def DEVICE_ID_DEFAULT_def
      SensorManager_fields_def Let_def)


section \<open>Properties of the dispatch engine\<close>

subsection \<open>The armed deadline follows the minimum wakeup time\<close>

lemma min_wakeup_armed [simp]: "min_wakeup (e\<lparr> armed := x \<rparr>) = min_wakeup e"
  by (simp add: min_wakeup_def)

lemma recomputeNextDeadline_ok: "deadline_ok (recomputeNextDeadline e)"
  by (auto simp: deadline_ok_def recomputeNextDeadline_def split: option.splits)

lemma recomputeNextDeadline_moveThreshold [simp]:
  "moveThreshold (recomputeNextDeadline e) = moveThreshold e"
  by (simp add: recomputeNextDeadline_def split: option.splits)

lemma scheduled_wakeups_append:
  "scheduled_wakeups (rs @ rs') = scheduled_wakeups rs @ scheduled_wakeups rs'"
  by (induction rs rule: scheduled_wakeups.induct) (auto split: reg_state.splits)

lemma registerCallback_ok: "deadline_ok e \<Longrightarrow> deadline_ok (snd (registerCallback name e))"
  by (simp add: deadline_ok_def registerCallback_def min_wakeup_def scheduled_wakeups_append)

lemma engine_step_ok: "deadline_ok e \<Longrightarrow> deadline_ok (engine_step op e)"
proof (cases op)
  case (RegisterCallback name)
  assume "deadline_ok e"
  then show ?thesis using RegisterCallback by (simp add: registerCallback_ok)
next
  case (UnregisterCallback h)
  assume "deadline_ok e"
  then show ?thesis using UnregisterCallback
    by (auto simp: unregisterCallback_def recomputeNextDeadline_ok
        split: sum.splits option.splits if_splits)
next
  case (Schedule tracker h work ready lastPulse)
  assume "deadline_ok e"
  then show ?thesis using Schedule
    by (auto simp: schedule_def Let_def recomputeNextDeadline_ok split: sum.splits option.splits)
next
  case (Cancel h)
  assume "deadline_ok e"
  then show ?thesis using Cancel
    by (auto simp: cancel_def recomputeNextDeadline_ok
        split: sum.splits option.splits reg_state.splits)
next
  case (TimerFired firedTime)
  assume "deadline_ok e"
  then show ?thesis using TimerFired
    by (auto simp: onTimerFired_def Let_def recomputeNextDeadline_ok split: option.splits)
qed

lemma engine_step_moveThreshold [simp]: "moveThreshold (engine_step op e) = moveThreshold e"
  by (cases op)
    (auto simp: registerCallback_def unregisterCallback_def schedule_def cancel_def
      onTimerFired_def Let_def split: sum.splits option.splits if_splits reg_state.splits)

lemma engine_run_ok: "deadline_ok e \<Longrightarrow> deadline_ok (engine_run ops e)"
  by (induction ops arbitrary: e) (simp_all add: engine_step_ok)

lemma engine_run_moveThreshold [simp]: "moveThreshold (engine_run ops e) = moveThreshold e"
  by (induction ops arbitrary: e) simp_all

lemma new_Engine_ok: "deadline_ok (new_Engine g m)"
  by (simp add: deadline_ok_def new_Engine_def min_wakeup_def)

text \<open>
  C1, as the design's own operations have it. The Engine holds at most one deadline
  (\<open>armed\<close> is an optional value). After every sequence of \<open>registerCallback\<close>,
  \<open>unregisterCallback\<close>, \<open>schedule\<close>, \<open>cancel\<close> and Timer firings, starting from a new
  Engine with move threshold \<open>m\<close>: the Timer is disarmed if and only if no registration
  is \<open>Scheduled\<close>, and an armed deadline either equals the minimum wakeup time over the
  \<open>Scheduled\<close> registrations or differs from it by less than \<open>m\<close>.
\<close>

theorem armed_deadline_near_minimum:
  "(armed (engine_run ops (new_Engine g m)) = None
      \<longleftrightarrow> min_wakeup (engine_run ops (new_Engine g m)) = None)
   \<and> (\<forall>a w. armed (engine_run ops (new_Engine g m)) = Some a
           \<and> min_wakeup (engine_run ops (new_Engine g m)) = Some w
         \<longrightarrow> a = w \<or> \<bar>w - a\<bar> < m)"
proof -
  have ok: "deadline_ok (engine_run ops (new_Engine g m))"
    by (rule engine_run_ok [OF new_Engine_ok])
  have mt: "moveThreshold (engine_run ops (new_Engine g m)) = m"
    by (simp add: new_Engine_def)
  show ?thesis using ok unfolding deadline_ok_def mt by blast
qed

theorem armed_deadline_near_minimum_witness:
  "armed (engine_run
            [RegisterCallback ''a'',
             Schedule (fixed_nextAnticipatedVSyncTimeFrom FixedRateIdealStubTracker) 0 0 0 (ms 4)]
            (new_Engine (us 100) (us 500))) = Some 6000000
   \<and> min_wakeup (engine_run
            [RegisterCallback ''a'',
             Schedule (fixed_nextAnticipatedVSyncTimeFrom FixedRateIdealStubTracker) 0 0 0 (ms 4)]
            (new_Engine (us 100) (us 500))) = Some 6000000
   \<and> ((6000000 :: int) = 6000000 \<or> \<bar>6000000 - 6000000 :: int\<bar> < us 500)"
proof -
  let ?e = "engine_run
            [RegisterCallback ''a'',
             Schedule (fixed_nextAnticipatedVSyncTimeFrom FixedRateIdealStubTracker) 0 0 0 (ms 4)]
            (new_Engine (us 100) (us 500))"
  have a: "armed ?e = Some 6000000"
    by (simp add: new_Engine_def registerCallback_def schedule_def lookup_registration_def
        recomputeNextDeadline_def min_wakeup_def fixed_nextAnticipatedVSyncTimeFrom_def
        FixedRateIdealStubTracker_def rem64_def sub64_def add64_def int64_def
        INT64_MIN_def INT64_MAX_def smod_int_alt_def ms_def us_def Let_def)
  have w: "min_wakeup ?e = Some 6000000"
    by (simp add: new_Engine_def registerCallback_def schedule_def lookup_registration_def
        recomputeNextDeadline_def min_wakeup_def fixed_nextAnticipatedVSyncTimeFrom_def
        FixedRateIdealStubTracker_def rem64_def sub64_def add64_def int64_def
        INT64_MIN_def INT64_MAX_def smod_int_alt_def ms_def us_def Let_def)
  from armed_deadline_near_minimum [of
      "[RegisterCallback ''a'',
        Schedule (fixed_nextAnticipatedVSyncTimeFrom FixedRateIdealStubTracker) 0 0 0 (ms 4)]"
      "us 100" "us 500"] a w
  have "(6000000 :: int) = 6000000 \<or> \<bar>6000000 - 6000000 :: int\<bar> < us 500"
    by blast
  with a w show ?thesis by blast
qed

text \<open>
  The claim as written asks for equality with the minimum after every sequence of
  \<open>schedule\<close> calls. With the thresholds of the tests (group 100us, move 500us): the
  first registration is scheduled for the pulse at 3ms with no lead and arms the Timer at
  3ms; the second is scheduled for the same pulse with 200us of work, so its wakeup time
  2.8ms is the new minimum, but it is within the move threshold of the armed deadline
  and the Timer is not re-armed.
\<close>

theorem armed_deadline_minimum_counterexample:
  "armed (engine_run
            [RegisterCallback ''a'', RegisterCallback ''b'',
             Schedule (fixed_nextAnticipatedVSyncTimeFrom FixedRateIdealStubTracker) 0 0 0 (ms 3),
             Schedule (fixed_nextAnticipatedVSyncTimeFrom FixedRateIdealStubTracker) 1
               (us 200) 0 (us 2800)]
            (new_Engine (us 100) (us 500))) = Some 3000000
   \<and> min_wakeup (engine_run
            [RegisterCallback ''a'', RegisterCallback ''b'',
             Schedule (fixed_nextAnticipatedVSyncTimeFrom FixedRateIdealStubTracker) 0 0 0 (ms 3),
             Schedule (fixed_nextAnticipatedVSyncTimeFrom FixedRateIdealStubTracker) 1
               (us 200) 0 (us 2800)]
            (new_Engine (us 100) (us 500))) = Some 2800000"
  by (simp add: new_Engine_def registerCallback_def schedule_def lookup_registration_def
      recomputeNextDeadline_def min_wakeup_def fixed_nextAnticipatedVSyncTimeFrom_def
      FixedRateIdealStubTracker_def rem64_def sub64_def add64_def int64_def
      INT64_MIN_def INT64_MAX_def smod_int_alt_def ms_def us_def Let_def)
section \<open>Properties of the single-client tests\<close>

subsection \<open>One cycle of schedule, fire and callback\<close>





lemma thresholds_pos: "0 \<le> mDispatchGroupThreshold" "0 \<le> mVsyncMoveThreshold"
  by (simp_all add: mDispatchGroupThreshold_def mVsyncMoveThreshold_def us_def)









lemma idle_world_proj [simp]:
  "mCallbackTimes (cb_receiver (idle_world called tr c lt tms dl rg lat n) ! 0) = tms"
  "delivered (idle_world called tr c lt tms dl rg lat n) = dl"
  "tracker (idle_world called tr c lt tms dl rg lat n) = tr"
  "captured (idle_world called tr c lt tms dl rg lat n) = c"
  "fired (idle_world called tr c lt tms dl rg lat n) = n"
  by (simp_all add: idle_world_def)






subsection \<open>The test with a period that grows every cycle\<close>



subsection \<open>The test with one jump of the period\<close>



subsection \<open>The start of both tests\<close>










section \<open>Properties of the test with three clients\<close>








lemma recompute_fields [simp]:
  "registrations (recomputeNextDeadline e) = registrations e"
  "groupThreshold (recomputeNextDeadline e) = groupThreshold e"
  "min_wakeup (recomputeNextDeadline e) = min_wakeup e"
  by (simp_all add: recomputeNextDeadline_def min_wakeup_def split: option.splits)

lemma callback_called_fields [simp]:
  "mCallback (callback_called t r) = mCallback r"
  "mWorkload (callback_called t r) = mWorkload r"
  "mReadyDuration (callback_called t r) = mReadyDuration r"
  "mCalled (callback_called t r) = True"
  "mLastTarget (callback_called t r) = t"
  "mCallbackTimes (callback_called t r) = mCallbackTimes r @ [t]"
  by (simp_all add: callback_called_def)


lemma deliver_length [simp]: "length (deliver iv recvs) = length recvs"
  by (cases iv) (simp add: deliver_def)




























lemma lastVsync_of_mCalled [simp]:
  "lastVsync_of T (r\<lparr> mCalled := b \<rparr>) = lastVsync_of T r"
  by (simp add: lastVsync_of_def cong: option.case_cong)














lemma triple_alarm_world_latency [simp]: "timer_latency (triple_alarm_world lat) = lat"
  by (simp add: triple_alarm_world_def new_RepeatingCallbackReceiver_def registerCallback_def)








end
